theory Spec2Isabelle
  imports Complex_Main "HOL-Library.AList" "HOL-Library.Sublist"
begin

section \<open>JavaScript values\<close>

text \<open>
  The cartridge is JavaScript: configurations, content assets, payloads and service
  responses are untyped values. A value is one of the JSON shapes plus \<open>undefined\<close>.
  A number carries the exact value of a finite double (every finite double is a
  rational); \<open>NaN\<close> and the infinities cannot come out of \<open>JSON.parse\<close> of a
  decimal literal in range and are not values of this model. An object is the list of its
  own enumerable properties, in the order in which \<open>for (k in o)\<close> visits them (the
  insertion order, for names that are not array indices); what it inherits from its
  prototype is read through the runtime (see \<open>prototype_member\<close> below). \<open>JFunction name\<close> is a
  built-in function, such as the \<open>constructor\<close> that every object inherits. A string is
  a list of 8-bit characters, standing for the code units below 256.
\<close>

datatype jsval =
    JUndefined
  | JNull
  | JBool bool
  | JNum rat
  | JStr string
  | JArr "jsval list"
  | JObj "(string \<times> jsval) list"
  | JFunction string

text \<open>
  The exceptions that the code under study can raise: the two kinds that the runtime
  throws, and \<open>throw new Error(message)\<close>.
\<close>

datatype js_error = TypeError | SyntaxError | Error string

text \<open>The \<open>typeof\<close> operator.\<close>

fun typeof :: "jsval \<Rightarrow> string" where
  "typeof JUndefined = ''undefined''"
| "typeof JNull = ''object''"
| "typeof (JBool b) = ''boolean''"
| "typeof (JNum x) = ''number''"
| "typeof (JStr s) = ''string''"
| "typeof (JArr xs) = ''object''"
| "typeof (JObj kvs) = ''object''"
| "typeof (JFunction f) = ''function''"

text \<open>Truthiness: what \<open>if (v)\<close>, \<open>!v\<close>, \<open>a || b\<close> and \<open>a && b\<close> test.\<close>

fun truthy :: "jsval \<Rightarrow> bool" where
  "truthy JUndefined = False"
| "truthy JNull = False"
| "truthy (JBool b) = b"
| "truthy (JNum x) = (x \<noteq> 0)"
| "truthy (JStr s) = (s \<noteq> [])"
| "truthy (JArr xs) = True"
| "truthy (JObj kvs) = True"
| "truthy (JFunction f) = True"

definition js_or :: "jsval \<Rightarrow> jsval \<Rightarrow> jsval" where
  "js_or a b = (if truthy a then a else b)"

definition js_and :: "jsval \<Rightarrow> jsval \<Rightarrow> jsval" where
  "js_and a b = (if truthy a then b else a)"

fun isArray :: "jsval \<Rightarrow> bool" where
  "isArray (JArr xs) = True"
| "isArray v = False"

subsection \<open>Decimal keys of arrays and strings\<close>

definition digit_char :: "nat \<Rightarrow> char" where
  "digit_char d = char_of (48 + d)"

fun show_nat :: "nat \<Rightarrow> string" where
  "show_nat n = (if n < 10 then [digit_char n] else show_nat (n div 10) @ [digit_char (n mod 10)])"

declare show_nat.simps [simp del]

definition is_digit :: "char \<Rightarrow> bool" where
  "is_digit c = ((48::nat) \<le> of_char c \<and> of_char c \<le> (57::nat))"

definition read_nat :: "string \<Rightarrow> nat" where
  "read_nat s = foldl (\<lambda>acc c. 10 * acc + (of_char c - 48)) 0 s"

text \<open>A property name is an index when it is the canonical decimal numeral of a number.\<close>

definition index_key :: "string \<Rightarrow> nat option" where
  "index_key s =
     (if s = [] \<or> \<not> list_all is_digit s then None
      else if hd s = CHR ''0'' \<and> s \<noteq> ''0'' then None
      else Some (read_nat s))"

fun indexed :: "nat \<Rightarrow> 'a list \<Rightarrow> (string \<times> 'a) list" where
  "indexed i [] = []"
| "indexed i (x # xs) = (show_nat i, x) # indexed (Suc i) xs"

subsection \<open>The runtime\<close>

text \<open>
  Functions of the JavaScript runtime that the cartridge calls and whose tables and
  algorithms are not part of it: they are parameters of the model.
  \<^item> \<open>js_String\<close>: the conversion \<open>String(v)\<close>, which is also what \<open>v.toString()\<close>
    returns and what string concatenation applies to a value, when it returns;
  \<^item> \<open>String_throws\<close>: whether that conversion throws on an object or an array (it does
    when neither \<open>toString\<close> nor \<open>valueOf\<close> gives a primitive, as for an object whose
    own property \<open>toString\<close> is not a function);
  \<^item> \<open>JSON_stringify\<close>: \<open>JSON.stringify(v)\<close>, \<open>None\<close> when it throws;
  \<^item> \<open>toLowerCase\<close>, \<open>toUpperCase\<close>: the Unicode case conversions;
  \<^item> \<open>regexp_replace pattern flags replacement s\<close>:
    \<open>s.replace(new RegExp(pattern, flags), replacement)\<close> for a pattern from the
    configuration, \<open>None\<close> when the constructor throws;
  \<^item> \<open>prototype_member v k\<close>: what \<open>v[k]\<close> reads when \<open>k\<close> is not an own property
    of \<open>v\<close>, that is the member \<open>k\<close> of the prototype chain of \<open>v\<close>
    (\<open>constructor\<close>, \<open>toString\<close>, ...), \<open>undefined\<close> when there is none;
  \<^item> \<open>error_message\<close>: the \<open>message\<close> of an exception of the runtime;
  \<^item> \<open>isDebugEnabled\<close>: what \<open>logger.isDebugEnabled()\<close> returns;
  \<^item> \<open>positive v\<close>: whether \<open>v > 0\<close> for a value that is not a number, a boolean,
    \<open>null\<close> or \<open>undefined\<close>, when the conversion of \<open>v\<close> does not throw;
  \<^item> \<open>Object_keys_throws v\<close>: whether \<open>Object.keys(v)\<close> throws (on \<open>null\<close> and
    \<open>undefined\<close>, and in ECMAScript 5 on every value that is not an object);
  \<^item> \<open>encodeURIComponent\<close>: the function of that name, on strings of code units below 256.
\<close>

record runtime =
  js_String :: "jsval \<Rightarrow> string"
  String_throws :: "jsval \<Rightarrow> bool"
  JSON_stringify :: "jsval \<Rightarrow> jsval option"
  toLowerCase :: "string \<Rightarrow> string"
  toUpperCase :: "string \<Rightarrow> string"
  regexp_replace :: "jsval \<Rightarrow> jsval \<Rightarrow> jsval \<Rightarrow> string \<Rightarrow> string option"
  prototype_member :: "jsval \<Rightarrow> string \<Rightarrow> jsval"
  error_message :: "js_error \<Rightarrow> string"
  isDebugEnabled :: bool
  positive :: "jsval \<Rightarrow> bool"
  Object_keys_throws :: "jsval \<Rightarrow> bool"
  encodeURIComponent :: "string \<Rightarrow> string"

text \<open>
  \<open>String(v)\<close>, and \<open>'...' + v\<close>: only the conversion of an object or an array runs
  code that can throw.
\<close>

definition ToPrimitive_throws :: "runtime \<Rightarrow> jsval \<Rightarrow> bool" where
  "ToPrimitive_throws rt v =
     (case v of JObj kvs \<Rightarrow> String_throws rt v | JArr xs \<Rightarrow> String_throws rt v | _ \<Rightarrow> False)"

definition string_of :: "runtime \<Rightarrow> jsval \<Rightarrow> string" where
  "string_of rt v = (case v of JStr s \<Rightarrow> s | _ \<Rightarrow> js_String rt v)"

definition to_string :: "runtime \<Rightarrow> jsval \<Rightarrow> js_error + string" where
  "to_string rt v = (if ToPrimitive_throws rt v then Inl TypeError else Inr (string_of rt v))"

text \<open>\<open>e.message\<close> in a \<open>catch (e)\<close>.\<close>

definition message_of :: "runtime \<Rightarrow> js_error \<Rightarrow> string" where
  "message_of rt e = (case e of Error m \<Rightarrow> m | _ \<Rightarrow> error_message rt e)"

subsection \<open>Property access\<close>

text \<open>
  \<open>v[k]\<close> and \<open>v.k\<close>: an own property of an object, an element or the length of an
  array, a character or the length of a string, and else the member of the prototype
  chain. On \<open>undefined\<close> and \<open>null\<close> JavaScript throws: every caller below tests for
  that before it uses \<open>js_get\<close>, and returns the exception where the code does not test.
\<close>

fun js_get :: "runtime \<Rightarrow> jsval \<Rightarrow> string \<Rightarrow> jsval" where
  "js_get rt (JObj kvs) k =
     (case map_of kvs k of Some v \<Rightarrow> v | None \<Rightarrow> prototype_member rt (JObj kvs) k)"
| "js_get rt (JArr xs) k =
     (if k = ''length'' then JNum (of_nat (length xs))
      else case index_key k of
             Some i \<Rightarrow> (if i < length xs then xs ! i else prototype_member rt (JArr xs) k)
           | None \<Rightarrow> prototype_member rt (JArr xs) k)"
| "js_get rt (JStr s) k =
     (if k = ''length'' then JNum (of_nat (length s))
      else case index_key k of
             Some i \<Rightarrow> (if i < length s then JStr [s ! i] else prototype_member rt (JStr s) k)
           | None \<Rightarrow> prototype_member rt (JStr s) k)"
| "js_get rt JUndefined k = JUndefined"
| "js_get rt JNull k = JUndefined"
| "js_get rt v k = prototype_member rt v k"

text \<open>The own enumerable properties of a value, in the order of \<open>for (k in v)\<close>.\<close>

fun own_entries :: "jsval \<Rightarrow> (string \<times> jsval) list" where
  "own_entries (JObj kvs) = kvs"
| "own_entries (JArr xs) = indexed 0 xs"
| "own_entries (JStr s) = indexed 0 (map (\<lambda>c. JStr [c]) s)"
| "own_entries v = []"

definition own_keys :: "jsval \<Rightarrow> string set" where
  "own_keys v = fst ` set (own_entries v)"

text \<open>
  \<open>v.hasOwnProperty(k)\<close> is a method call: \<open>v.hasOwnProperty\<close> is read like any
  property, so an own property of that name hides the method of \<open>Object.prototype\<close>.
  The objects here come from JSON, whose values are never functions: the call then
  throws a \<open>TypeError\<close>.
\<close>

definition hasOwnProperty_shadowed :: "jsval \<Rightarrow> bool" where
  "hasOwnProperty_shadowed v = (map_of (own_entries v) ''hasOwnProperty'' \<noteq> None)"

text \<open>\<open>o.hasOwnProperty(k)\<close> on an object \<open>o\<close> that the code has made with \<open>{}\<close>.\<close>

definition hasOwnProperty :: "(string \<times> jsval) list \<Rightarrow> string \<Rightarrow> js_error + bool" where
  "hasOwnProperty kvs k =
     (if hasOwnProperty_shadowed (JObj kvs) then Inl TypeError
      else Inr (map_of kvs k \<noteq> None))"

text \<open>
  \<open>for (k in v) { if (v.hasOwnProperty(k)) { ... } }\<close>: the names for which the body
  runs, in order. The first round calls \<open>v.hasOwnProperty\<close>, so the loop throws at once
  when the method is hidden (there is a first round then: the hiding property itself).
\<close>

definition for_in_own :: "jsval \<Rightarrow> js_error + string list" where
  "for_in_own v =
     (if hasOwnProperty_shadowed v then Inl TypeError else Inr (map fst (own_entries v)))"

text \<open>
  \<open>o[k] = v\<close> on an object \<open>o\<close> that the code has made with \<open>{}\<close>: an existing
  property keeps its place, a new one goes last (a new name that is an array index is
  visited before the other names; the statements below are about the names and the values
  of an object, not about their order). The name \<open>__proto__\<close> is an accessor
  of \<open>Object.prototype\<close>: assigning to it creates no property. (When \<open>v\<close> is an object
  or \<open>null\<close> the assignment replaces the prototype of \<open>o\<close>; the model has no
  prototype of its own for \<open>o\<close>, and the theorems about copies are stated for sources
  without an own property \<open>__proto__\<close>.)
\<close>

definition obj_set :: "(string \<times> jsval) list \<Rightarrow> string \<Rightarrow> jsval \<Rightarrow> (string \<times> jsval) list" where
  "obj_set kvs k v = (if k = ''__proto__'' then kvs else AList.update k v kvs)"

text \<open>
  An object on which the loops above run as on a plain record: it has no own property
  named \<open>hasOwnProperty\<close> or \<open>__proto__\<close>.
\<close>

definition ordinary_keys :: "jsval \<Rightarrow> bool" where
  "ordinary_keys v =
     (map_of (own_entries v) ''hasOwnProperty'' = None \<and> map_of (own_entries v) ''__proto__'' = None)"

subsection \<open>Strings\<close>

text \<open>
  The characters that the regular expression class \<open>\s\<close> and \<open>String.prototype.trim\<close>
  treat as white space, among the code units below 256: tab, line feed, vertical tab, form
  feed, carriage return, space and the no-break space.
\<close>

definition js_space :: "char \<Rightarrow> bool" where
  "js_space c = (of_char c \<in> {9, 10, 11, 12, 13, 32, 160::nat})"

definition trim :: "string \<Rightarrow> string" where
  "trim s = rev (dropWhile js_space (rev (dropWhile js_space s)))"

text \<open>\<open>s.split(c)\<close> for a one-character separator: never an empty list.\<close>

fun split_on :: "char \<Rightarrow> string \<Rightarrow> string list" where
  "split_on c [] = [[]]"
| "split_on c (x # xs) =
     (if x = c then [] # split_on c xs
      else case split_on c xs of
             [] \<Rightarrow> [[x]]
           | p # ps \<Rightarrow> (x # p) # ps)"

text \<open>\<open>parts.join(sep)\<close>.\<close>

fun join :: "string \<Rightarrow> string list \<Rightarrow> string" where
  "join sep [] = []"
| "join sep [p] = p"
| "join sep (p # q # ps) = p @ sep @ join sep (q # ps)"

section \<open>Configuration resolver: validation (siteConfigHelper.js)\<close>

record validation =
  valid :: bool
  errors :: "string list"
  warnings :: "string list"

definition add_error :: "string \<Rightarrow> validation \<Rightarrow> validation" where
  "add_error msg r = r\<lparr>valid := False, errors := errors r @ [msg]\<rparr>"

definition add_warning :: "string \<Rightarrow> validation \<Rightarrow> validation" where
  "add_warning msg r = r\<lparr>warnings := warnings r @ [msg]\<rparr>"

text \<open>\<open>validateContentFolderIDs\<close>: \<open>None\<close> is \<open>{valid: true}\<close>, \<open>Some e\<close> the error.\<close>

definition validateContentFolderIDs :: "jsval \<Rightarrow> string option" where
  "validateContentFolderIDs folderIDs =
     (if \<not> truthy folderIDs then Some ''contentFolderIDs is required''
      else case folderIDs of
        JStr s \<Rightarrow>
          (if trim s = [] then Some ''contentFolderIDs cannot be empty string'' else None)
      | JArr xs \<Rightarrow>
          (if xs = [] then Some ''contentFolderIDs array cannot be empty''
           else if list_ex (\<lambda>x. case x of JStr s \<Rightarrow> trim s = [] | _ \<Rightarrow> True) xs
             then Some ''contentFolderIDs array must contain non-empty strings''
           else None)
      | _ \<Rightarrow> Some ''contentFolderIDs must be a string or array of strings'')"

definition supportedTransforms :: "string list" where
  "supportedTransforms =
     [''replaceSpaces'', ''urlSafe'', ''lowercase'', ''uppercase'', ''removeSpaces'', ''replace'']"

text \<open>One round of the loop of \<open>validateTransforms\<close>, for the entry \<open>fieldName: transform\<close>.\<close>

definition validateTransform :: "runtime \<Rightarrow> string \<Rightarrow> jsval \<Rightarrow> validation \<Rightarrow> validation" where
  "validateTransform rt fieldName transform r =
     (case transform of
        JStr t \<Rightarrow>
          (let transformName = hd (split_on CHR '':'' t) in
           if transformName \<notin> set supportedTransforms
           then add_warning (''Unknown transform \"'' @ transformName @ ''\" for field '' @ fieldName) r
           else r)
      | _ \<Rightarrow>
          (if typeof transform = ''object'' \<and> transform \<noteq> JNull
           then (let ty = js_get rt transform ''type'' in
                 if \<not> truthy ty
                 then add_error (''Transform object for field '' @ fieldName @ '' must have a \"type\" property'') r
                 else case ty of
                   JStr t \<Rightarrow>
                     (if t \<notin> set supportedTransforms
                      then add_warning (''Unknown transform type \"'' @ t @ ''\" for field '' @ fieldName) r
                      else r)
                 | _ \<Rightarrow> add_error (''Transform type for field '' @ fieldName @ '' must be a string'') r)
           else add_error (''Transform for field '' @ fieldName @ '' must be a string or object'') r))"

text \<open>
  \<open>validateTransforms(transforms)\<close>. The loop calls \<open>transforms.hasOwnProperty\<close> and
  nothing catches: with an own property of that name the function throws.
\<close>

definition validateTransforms :: "runtime \<Rightarrow> jsval \<Rightarrow> js_error + validation" where
  "validateTransforms rt transforms =
     (if typeof transforms \<noteq> ''object'' \<or> transforms = JNull
      then Inr \<lparr>valid = False, errors = [''transforms must be an object''], warnings = []\<rparr>
      else case for_in_own transforms of
             Inl e \<Rightarrow> Inl e
           | Inr fieldNames \<Rightarrow>
               Inr (foldl (\<lambda>r fieldName. validateTransform rt fieldName (js_get rt transforms fieldName) r)
                      \<lparr>valid = True, errors = [], warnings = []\<rparr> fieldNames))"

definition batchSize_error :: string where
  "batchSize_error = ''batchSize must be a number between 1 and 500''"

text \<open>The checks of \<open>validateConfiguration\<close>, one definition for each, in source order.\<close>

definition check_articleType :: "runtime \<Rightarrow> jsval \<Rightarrow> validation \<Rightarrow> validation" where
  "check_articleType rt config r =
     (let v = js_get rt config ''articleType'' in
      if truthy v \<and> typeof v \<noteq> ''string'' then add_error ''articleType must be a string'' r else r)"

definition check_contentFolderIDs :: "runtime \<Rightarrow> jsval \<Rightarrow> validation \<Rightarrow> validation" where
  "check_contentFolderIDs rt config r =
     (let v = js_get rt config ''contentFolderIDs'' in
      if truthy v
      then (case validateContentFolderIDs v of
              Some e \<Rightarrow> add_error (''contentFolderIDs: '' @ e) r
            | None \<Rightarrow> r)
      else r)"

definition check_batchSize :: "runtime \<Rightarrow> jsval \<Rightarrow> validation \<Rightarrow> validation" where
  "check_batchSize rt config r =
     (let v = js_get rt config ''batchSize'' in
      if v \<noteq> JUndefined
      then (case v of
              JNum x \<Rightarrow> (if x < 1 \<or> x > 500 then add_error batchSize_error r else r)
            | _ \<Rightarrow> add_error batchSize_error r)
      else r)"

definition check_exportMode :: "runtime \<Rightarrow> jsval \<Rightarrow> validation \<Rightarrow> validation" where
  "check_exportMode rt config r =
     (let v = js_get rt config ''exportMode'' in
      if truthy v \<and> v \<noteq> JStr ''delta'' \<and> v \<noteq> JStr ''full''
      then add_error ''exportMode must be \"delta\" or \"full\"'' r else r)"

definition check_boolean :: "runtime \<Rightarrow> string \<Rightarrow> jsval \<Rightarrow> validation \<Rightarrow> validation" where
  "check_boolean rt name config r =
     (let v = js_get rt config name in
      if v \<noteq> JUndefined \<and> typeof v \<noteq> ''boolean''
      then add_error (name @ '' must be a boolean'') r else r)"

definition check_fieldMapping :: "runtime \<Rightarrow> jsval \<Rightarrow> validation \<Rightarrow> validation" where
  "check_fieldMapping rt config r =
     (let v = js_get rt config ''fieldMapping'' in
      if truthy v
      then (if typeof v \<noteq> ''object'' then add_error ''fieldMapping must be an object'' r
            else if own_entries v = [] then add_warning ''fieldMapping is empty'' r
            else r)
      else r)"

text \<open>The check of \<open>transforms\<close> is the one that can throw.\<close>

definition check_transforms :: "runtime \<Rightarrow> jsval \<Rightarrow> validation \<Rightarrow> js_error + validation" where
  "check_transforms rt config r =
     (let v = js_get rt config ''transforms'' in
      if truthy v
      then (case validateTransforms rt v of
              Inl e \<Rightarrow> Inl e
            | Inr t \<Rightarrow>
                (let r1 = (if \<not> valid t then r\<lparr>valid := False, errors := errors r @ errors t\<rparr> else r)
                 in Inr (if warnings t \<noteq> [] then r1\<lparr>warnings := warnings r1 @ warnings t\<rparr> else r1)))
      else Inr r)"

definition check_object :: "runtime \<Rightarrow> string \<Rightarrow> jsval \<Rightarrow> validation \<Rightarrow> validation" where
  "check_object rt name config r =
     (let v = js_get rt config name in
      if truthy v \<and> typeof v \<noteq> ''object''
      then add_error (name @ '' must be an object'') r else r)"

definition check_string :: "runtime \<Rightarrow> string \<Rightarrow> jsval \<Rightarrow> validation \<Rightarrow> validation" where
  "check_string rt name config r =
     (let v = js_get rt config name in
      if truthy v \<and> typeof v \<noteq> ''string''
      then add_error (name @ '' must be a string'') r else r)"

text \<open>
  \<open>validateConfiguration(config, siteID)\<close>: \<open>Inl e\<close> when it throws, \<open>Inr result\<close> when
  it returns.
\<close>

definition validateConfiguration :: "runtime \<Rightarrow> jsval \<Rightarrow> string \<Rightarrow> js_error + validation" where
  "validateConfiguration rt config siteID =
     (if \<not> truthy config \<or> typeof config \<noteq> ''object''
      then Inr \<lparr>valid = False,
                 errors = [''Configuration is not a valid object for site: '' @ siteID],
                 warnings = []\<rparr>
      else
        case check_transforms rt config
               (check_fieldMapping rt config
               (check_boolean rt ''autoCreateFields'' config
               (check_boolean rt ''enableDebugLogging'' config
               (check_boolean rt ''publishArticles'' config
               (check_exportMode rt config
               (check_batchSize rt config
               (check_contentFolderIDs rt config
               (check_articleType rt config
                  \<lparr>valid = True, errors = [], warnings = []\<rparr>)))))))) of
          Inl e \<Rightarrow> Inl e
        | Inr r \<Rightarrow>
            Inr (check_string rt ''dataCategory'' config
                (check_string rt ''recordTypeName'' config
                (check_object rt ''fieldMetadata'' config
                (check_object rt ''static'' config r)))))"

text \<open>A configuration with a batch size above the limit.\<close>

definition oversized_config :: jsval where
  "oversized_config = JObj [(''batchSize'', JNum 501)]"

subsection \<open>A runtime for the examples\<close>

text \<open>
  The examples and witnesses below run on this instance of the runtime. Its case
  conversions are the ASCII ones, and \<open>String\<close> and \<open>JSON.stringify\<close> are right on
  strings of printable ASCII, booleans, \<open>null\<close>, \<open>undefined\<close>, natural numbers,
  built-in functions, and the plain objects and the arrays made of these (\<open>String\<close>
  on plain objects only); it stands in for the platform's runtime on the rest, which no
  example reaches. Its \<open>encodeURIComponent\<close> leaves a string as it is: the examples
  look at the results of a run, which do not depend on the text of a query. No theorem
  about the cartridge depends on this instance: each holds for every runtime.
\<close>

definition ascii_lower :: "char \<Rightarrow> char" where
  "ascii_lower c =
     (if (65::nat) \<le> of_char c \<and> of_char c \<le> (90::nat) then char_of (of_char c + (32::nat)) else c)"

definition ascii_upper :: "char \<Rightarrow> char" where
  "ascii_upper c =
     (if (97::nat) \<le> of_char c \<and> of_char c \<le> (122::nat) then char_of (of_char c - (32::nat)) else c)"

definition example_String :: "jsval \<Rightarrow> string" where
  "example_String v =
     (case v of
        JStr s \<Rightarrow> s
      | JBool b \<Rightarrow> (if b then ''true'' else ''false'')
      | JNull \<Rightarrow> ''null''
      | JUndefined \<Rightarrow> ''undefined''
      | JObj kvs \<Rightarrow> ''[object Object]''
      | JNum x \<Rightarrow> (if x \<in> \<nat> then show_nat (nat \<lfloor>x\<rfloor>) else ''?'')
      | JArr xs \<Rightarrow> ''?''
      | JFunction f \<Rightarrow> ''function '' @ f @ ''() { [native code] }'')"

text \<open>\<open>JSON.stringify(v)\<close> without indentation, for a value that is not \<open>undefined\<close>.\<close>

definition json_quote :: "string \<Rightarrow> string" where
  "json_quote s =
     [CHR 34] @ concat (map (\<lambda>c. if c = CHR 34 \<or> c = CHR 92 then [CHR 92, c] else [c]) s) @ [CHR 34]"

fun json_text :: "jsval \<Rightarrow> string"
  and json_elements :: "jsval list \<Rightarrow> string list"
  and json_members :: "(string \<times> jsval) list \<Rightarrow> string list" where
  "json_text JUndefined = ''null''"
| "json_text JNull = ''null''"
| "json_text (JBool b) = (if b then ''true'' else ''false'')"
| "json_text (JNum x) = (if x \<in> \<nat> then show_nat (nat \<lfloor>x\<rfloor>) else ''?'')"
| "json_text (JStr s) = json_quote s"
| "json_text (JArr xs) = ''['' @ join '','' (json_elements xs) @ '']''"
| "json_text (JObj kvs) = ''{'' @ join '','' (json_members kvs) @ ''}''"
| "json_text (JFunction f) = ''null''"
| "json_elements [] = []"
| "json_elements (x # xs) = json_text x # json_elements xs"
| "json_members [] = []"
| "json_members (kv # kvs) =
     (if snd kv = JUndefined \<or> typeof (snd kv) = ''function'' then json_members kvs
      else (json_quote (fst kv) @ '':'' @ json_text (snd kv)) # json_members kvs)"

definition example_stringify :: "jsval \<Rightarrow> jsval option" where
  "example_stringify v =
     (if v = JUndefined \<or> typeof v = ''function'' then Some JUndefined else Some (JStr (json_text v)))"

text \<open>
  What a value made by \<open>JSON.parse\<close> inherits: the constructor of its kind and the
  methods of \<open>Object.prototype\<close>. A function has its \<open>name\<close>.
\<close>

definition example_prototype_member :: "jsval \<Rightarrow> string \<Rightarrow> jsval" where
  "example_prototype_member v k =
     (case v of
        JUndefined \<Rightarrow> JUndefined
      | JNull \<Rightarrow> JUndefined
      | JFunction f \<Rightarrow> (if k = ''name'' then JStr f else JUndefined)
      | _ \<Rightarrow>
          (if k = ''constructor''
           then JFunction (case v of JArr xs \<Rightarrow> ''Array'' | JStr s \<Rightarrow> ''String''
                           | JNum x \<Rightarrow> ''Number'' | JBool b \<Rightarrow> ''Boolean'' | _ \<Rightarrow> ''Object'')
           else if k \<in> set [''toString'', ''valueOf'', ''hasOwnProperty''] then JFunction k
           else JUndefined))"

text \<open>
  \<open>String(v)\<close> throws on an object whose own property \<open>toString\<close> hides the method (the
  value of a JSON property is never a function, and \<open>valueOf\<close> gives the object back),
  and on an array with such an element.
\<close>

fun example_String_throws :: "jsval \<Rightarrow> bool" where
  "example_String_throws (JObj kvs) = (map_of kvs ''toString'' \<noteq> None)"
| "example_String_throws (JArr xs) = list_ex example_String_throws xs"
| "example_String_throws v = False"

definition example_runtime :: runtime where
  "example_runtime =
     \<lparr>js_String = example_String,
      String_throws = example_String_throws,
      JSON_stringify = example_stringify,
      toLowerCase = map ascii_lower,
      toUpperCase = map ascii_upper,
      regexp_replace = (\<lambda>pattern flags replaceWith s. None),
      prototype_member = example_prototype_member,
      error_message = (\<lambda>e. case e of TypeError \<Rightarrow> ''TypeError'' | SyntaxError \<Rightarrow> ''SyntaxError''
                           | Error m \<Rightarrow> m),
      isDebugEnabled = False,
      positive = (\<lambda>v. False),
      Object_keys_throws = (\<lambda>v. v = JNull \<or> v = JUndefined),
      encodeURIComponent = (\<lambda>s. s)\<rparr>"

section \<open>Delta filter (contentMappingHelper.js, getContentAssets)\<close>





section \<open>Configuration resolver: inheritance (siteConfigHelper.js)\<close>

text \<open>
  \<open>for (var key in source) if (source.hasOwnProperty(key)) merged[key] = source[key]\<close>:
  the loop that \<open>mergeConfigurations\<close> runs once and \<open>mergeStaticFields\<close> twice. It
  throws when \<open>source\<close> hides \<open>hasOwnProperty\<close>; neither function catches.
\<close>

definition copy_properties ::
  "runtime \<Rightarrow> jsval \<Rightarrow> (string \<times> jsval) list \<Rightarrow> js_error + (string \<times> jsval) list" where
  "copy_properties rt source merged =
     (case for_in_own source of
        Inl e \<Rightarrow> Inl e
      | Inr keys \<Rightarrow> Inr (foldl (\<lambda>m key. obj_set m key (js_get rt source key)) merged keys))"

definition mergeStaticFields :: "runtime \<Rightarrow> jsval \<Rightarrow> jsval \<Rightarrow> js_error + jsval" where
  "mergeStaticFields rt defaultStatic siteStatic =
     (case copy_properties rt defaultStatic [] of
        Inl e \<Rightarrow> Inl e
      | Inr merged \<Rightarrow>
          (case copy_properties rt siteStatic merged of
             Inl e \<Rightarrow> Inl e
           | Inr merged' \<Rightarrow> Inr (JObj merged')))"

text \<open>The second loop of \<open>mergeConfigurations\<close>, over the names it visits.\<close>

fun override_loop ::
  "runtime \<Rightarrow> jsval \<Rightarrow> jsval \<Rightarrow> string list \<Rightarrow> (string \<times> jsval) list \<Rightarrow>
     js_error + (string \<times> jsval) list" where
  "override_loop rt defaults siteConfig [] merged = Inr merged"
| "override_loop rt defaults siteConfig (siteKey # rest) merged =
     (if siteKey = ''static''
      then (case mergeStaticFields rt (js_or (js_get rt defaults ''static'') (JObj []))
                                      (js_or (js_get rt siteConfig ''static'') (JObj [])) of
              Inl e \<Rightarrow> Inl e
            | Inr mergedStatic \<Rightarrow>
                override_loop rt defaults siteConfig rest (obj_set merged ''static'' mergedStatic))
      else override_loop rt defaults siteConfig rest
             (obj_set merged siteKey (js_get rt siteConfig siteKey)))"

definition mergeConfigurations :: "runtime \<Rightarrow> jsval \<Rightarrow> jsval \<Rightarrow> js_error + jsval" where
  "mergeConfigurations rt defaults siteConfig =
     (case copy_properties rt defaults [] of
        Inl e \<Rightarrow> Inl e
      | Inr merged \<Rightarrow>
          (case for_in_own siteConfig of
             Inl e \<Rightarrow> Inl e
           | Inr siteKeys \<Rightarrow>
               (case override_loop rt defaults siteConfig siteKeys merged of
                  Inl e \<Rightarrow> Inl e
                | Inr merged' \<Rightarrow> Inr (JObj merged'))))"

text \<open>
  \<open>getSiteConfiguration(allConfigs, siteID)\<close>: \<open>Inr JNull\<close> is the \<open>null\<close> it returns on
  a bad argument, \<open>Inl e\<close> the exception of the merge.
\<close>

definition getSiteConfiguration :: "runtime \<Rightarrow> jsval \<Rightarrow> string \<Rightarrow> js_error + jsval" where
  "getSiteConfiguration rt allConfigs siteID =
     (if \<not> truthy allConfigs \<or> typeof allConfigs \<noteq> ''object'' then Inr JNull
      else if siteID = [] \<or> trim siteID = [] then Inr JNull
      else let defaults = js_or (js_get rt allConfigs ''_defaults'') (JObj []);
               siteConfig = js_get rt allConfigs siteID
           in if \<not> truthy siteConfig then Inr defaults
              else mergeConfigurations rt defaults siteConfig)"



section \<open>Results of the article sync\<close>

text \<open>
  The object that \<open>upsertKnowledgeArticle\<close> returns. A field that the object does not
  have is \<open>JUndefined\<close> (the ids, the messages) or \<open>None\<close> (the two enumerations).
\<close>

record upsert_result =
  success :: bool
  knowledgeArticleId :: jsval
  versionId :: jsval
  operation :: "string option"
  publishStatus :: "string option"
  error :: jsval
  warning :: jsval
  contentId :: jsval

section \<open>Batch orchestrator\<close>

subsection \<open>exportBatch (salesforceKnowledgeHelper.js)\<close>

record batch_result =
  batch_success :: bool
  successCount :: nat
  failureCount :: nat
  details :: "upsert_result list"
  batch_error :: "string option"

text \<open>
  The \<open>for\<close> loop of \<open>exportBatch\<close>, inside its \<open>try\<close>: \<open>upsert\<close> is
  \<open>upsertKnowledgeArticle\<close> with the configuration, run on the state \<open>s\<close> of the
  remote service. The log line at the head of a round reads \<open>contentAsset.ID\<close> and
  joins it to a string: it throws on a record that is \<open>null\<close> or \<open>undefined\<close>, and on
  an \<open>ID\<close> that has no string form. So does the warning for a failed upsert on its
  \<open>error\<close>. The \<open>catch\<close> ends the loop, with \<open>success: false\<close> and the message.
  \<open>upsertKnowledgeArticle\<close> evaluates the same log expression and then runs in a \<open>try\<close>
  of its own, so it returns whenever the round reaches it.
\<close>

definition batch_exception :: "runtime \<Rightarrow> js_error \<Rightarrow> batch_result \<Rightarrow> batch_result" where
  "batch_exception rt e result =
     result\<lparr>batch_success := False,
            batch_error := Some (''Batch exception: '' @ message_of rt e)\<rparr>"

fun exportBatch_loop ::
  "runtime \<Rightarrow> ('s \<Rightarrow> jsval \<Rightarrow> upsert_result \<times> 's) \<Rightarrow> jsval list \<Rightarrow> batch_result \<times> 's \<Rightarrow>
     batch_result \<times> 's" where
  "exportBatch_loop rt upsert [] (result, s) = (result, s)"
| "exportBatch_loop rt upsert (contentAsset # rest) (result, s) =
     (if contentAsset = JNull \<or> contentAsset = JUndefined
         \<or> ToPrimitive_throws rt (js_get rt contentAsset ''ID'')
      then (batch_exception rt TypeError result, s)
      else
        (let (upsertResult, s') = upsert s contentAsset;
             result1 = result\<lparr>details := details result @
                                 [upsertResult\<lparr>contentId := js_get rt contentAsset ''ID''\<rparr>]\<rparr>
         in if success upsertResult
            then exportBatch_loop rt upsert rest (result1\<lparr>successCount := successCount result1 + 1\<rparr>, s')
            else
              (let result2 = result1\<lparr>failureCount := failureCount result1 + 1\<rparr>
               in if ToPrimitive_throws rt (error upsertResult)
                  then (batch_exception rt TypeError result2, s')
                  else exportBatch_loop rt upsert rest (result2, s'))))"

definition exportBatch ::
  "runtime \<Rightarrow> ('s \<Rightarrow> jsval \<Rightarrow> upsert_result \<times> 's) \<Rightarrow> 's \<Rightarrow> jsval list \<Rightarrow> batch_result \<times> 's" where
  "exportBatch rt upsert s contentAssets =
     (let result = \<lparr>batch_success = True, successCount = 0, failureCount = 0, details = [],
                     batch_error = None\<rparr>
      in if contentAssets = [] then (result\<lparr>batch_error := Some ''Empty batch''\<rparr>, s)
         else exportBatch_loop rt upsert contentAssets (result, s))"

subsection \<open>exportToExternalAPI (contentMappingHelper.js)\<close>

record export_error =
  batch_number :: nat
  message :: string

record export_result =
  totalProcessed :: nat
  totalSuccess :: nat
  totalFailed :: nat
  export_errors :: "export_error list"

text \<open>
  \<open>exportFunction\<close> is the callback: \<open>Inl message\<close> when it throws, \<open>Inr batchResult\<close>
  when it returns. One round of the \<open>for\<close> loop, for the batch with index \<open>i\<close>:
\<close>

definition export_step ::
  "('s \<Rightarrow> jsval list \<Rightarrow> (string + batch_result) \<times> 's) \<Rightarrow> nat \<Rightarrow> jsval list \<Rightarrow> nat \<Rightarrow>
     export_result \<times> 's \<Rightarrow> export_result \<times> 's" where
  "export_step exportFunction batchSize contentAssets i rs =
     (let (result, s) = rs;
          startIdx = i * batchSize;
          endIdx = min (startIdx + batchSize) (length contentAssets);
          batch = take (endIdx - startIdx) (drop startIdx contentAssets)
      in case exportFunction s batch of
           (Inr batchResult, s') \<Rightarrow>
             (let result1 = result\<lparr>totalProcessed := totalProcessed result + length batch\<rparr>
              in if batch_success batchResult
                 then (result1\<lparr>totalSuccess := totalSuccess result1 +
                         (if successCount batchResult \<noteq> 0 then successCount batchResult
                          else length batch)\<rparr>, s')
                 else (result1\<lparr>totalFailed := totalFailed result1 + length batch,
                         export_errors := export_errors result1 @
                           [\<lparr>batch_number = i + 1,
                             message = (case batch_error batchResult of
                                          Some e \<Rightarrow> (if e \<noteq> [] then e else ''Unknown error'')
                                        | None \<Rightarrow> ''Unknown error'')\<rparr>]\<rparr>, s'))
         | (Inl e, s') \<Rightarrow>
             (result\<lparr>totalProcessed := totalProcessed result + length batch,
                     totalFailed := totalFailed result + length batch,
                     export_errors := export_errors result @ [\<lparr>batch_number = i + 1, message = e\<rparr>]\<rparr>, s'))"

text \<open>\<open>for (var i = 0; i < totalBatches; i++)\<close>, as a recursion on the rounds left.\<close>

function export_loop ::
  "('s \<Rightarrow> jsval list \<Rightarrow> (string + batch_result) \<times> 's) \<Rightarrow> nat \<Rightarrow> jsval list \<Rightarrow> nat \<Rightarrow> nat \<Rightarrow>
     export_result \<times> 's \<Rightarrow> export_result \<times> 's" where
  "export_loop exportFunction batchSize contentAssets totalBatches i rs =
     (if i < totalBatches
      then export_loop exportFunction batchSize contentAssets totalBatches (i + 1)
             (export_step exportFunction batchSize contentAssets i rs)
      else rs)"
  by pat_completeness auto
termination
  by (relation "measure (\<lambda>(f, b, xs, t, i, rs). t - i)") auto

declare export_loop.simps [simp del]

text \<open>
  \<open>exportToExternalAPI(contentAssets, batchSize, exportFunction)\<close>, for a batch size that
  is a natural number. \<open>totalBatches\<close> is \<open>Math.ceil(contentAssets.length / batchSize)\<close>.
  With \<open>batchSize = 0\<close> and a non-empty list that is \<open>Infinity\<close> and the loop never ends:
  the result is \<open>None\<close>.
\<close>

definition exportToExternalAPI ::
  "('s \<Rightarrow> jsval list \<Rightarrow> (string + batch_result) \<times> 's) \<Rightarrow> 's \<Rightarrow> jsval list \<Rightarrow> nat \<Rightarrow>
     (export_result \<times> 's) option" where
  "exportToExternalAPI exportFunction s contentAssets batchSize =
     (let result = \<lparr>totalProcessed = 0, totalSuccess = 0, totalFailed = 0, export_errors = []\<rparr>
      in if contentAssets = [] then Some (result, s)
         else if batchSize = 0 then None
         else Some (export_loop exportFunction batchSize contentAssets
                      ((length contentAssets + batchSize - 1) div batchSize) 0 (result, s)))"

text \<open>Two records, and an upsert result that reports failure.\<close>

definition failed_upsert :: upsert_result where
  "failed_upsert =
     \<lparr>success = False, knowledgeArticleId = JUndefined, versionId = JUndefined,
      operation = None, publishStatus = None,
      error = JStr ''Service ID is required but not provided in configuration'',
      warning = JUndefined, contentId = JUndefined\<rparr>"

definition two_assets :: "jsval list" where
  "two_assets = [JObj [(''ID'', JStr ''faq-001'')], JObj [(''ID'', JStr ''faq-002'')]]"

section \<open>Transform engine (fieldTransformHelper.js)\<close>

subsection \<open>Global replacement\<close>

text \<open>
  \<open>s.replace(regex, replacement)\<close> for a regular expression with the \<open>g\<close> flag and no
  capture group. The expression is given by its matcher: at a position of the string,
  with \<open>before\<close> the part of the string to the left and \<open>rest\<close> the part from the
  position on, \<open>matcher before rest\<close> is the length of the match that starts there, or
  \<open>None\<close>. The scan goes left to right and resumes after each match.
\<close>

text \<open>
  The replacement text (\<open>GetSubstitution\<close>): \<open>$$\<close> is a dollar sign, \<open>$&\<close> the
  match, \<open>$`\<close> the part of the string before the match and \<open>$'\<close> the part after it.
  Without capture groups every other \<open>$\<close> stands for itself.
\<close>

fun substitution :: "string \<Rightarrow> string \<Rightarrow> string \<Rightarrow> string \<Rightarrow> string" where
  "substitution [] before matched after = []"
| "substitution [c] before matched after = [c]"
| "substitution (c # d # r) before matched after =
     (if c = CHR ''$'' \<and> d = CHR ''$'' then CHR ''$'' # substitution r before matched after
      else if c = CHR ''$'' \<and> d = CHR ''&'' then matched @ substitution r before matched after
      else if c = CHR ''$'' \<and> d = CHR 0x60 then before @ substitution r before matched after
      else if c = CHR ''$'' \<and> d = CHR 0x27 then after @ substitution r before matched after
      else c # substitution (d # r) before matched after)"

function replace_all ::
  "(string \<Rightarrow> string \<Rightarrow> nat option) \<Rightarrow> string \<Rightarrow> string \<Rightarrow> string \<Rightarrow> string" where
  "replace_all matcher replacement before [] =
     (case matcher before [] of
        Some k \<Rightarrow> substitution replacement before [] []
      | None \<Rightarrow> [])"
| "replace_all matcher replacement before (x # xs) =
     (case matcher before (x # xs) of
        None \<Rightarrow> x # replace_all matcher replacement (before @ [x]) xs
      | Some 0 \<Rightarrow>
          substitution replacement before [] (x # xs) @
            x # replace_all matcher replacement (before @ [x]) xs
      | Some (Suc k) \<Rightarrow>
          substitution replacement before (take (Suc k) (x # xs)) (drop (Suc k) (x # xs)) @
            replace_all matcher replacement (before @ take (Suc k) (x # xs)) (drop (Suc k) (x # xs)))"
  by pat_completeness auto
termination
  by (relation "measure (\<lambda>(m, r, b, s). length s)") auto

declare replace_all.simps [simp del]

subsection \<open>The patterns of the transforms\<close>

text \<open>\<open>/\s+/\<close>: a maximal run of white space.\<close>

definition match_spaces :: "string \<Rightarrow> string \<Rightarrow> nat option" where
  "match_spaces before rest =
     (case takeWhile js_space rest of [] \<Rightarrow> None | run \<Rightarrow> Some (length run))"

text \<open>
  \<open>separator.replace(/[.*+?^${}()|[\]\\]/g, '\\$&')\<close>: a backslash before each character
  that has a meaning in a regular expression.
\<close>

definition regex_special :: "char \<Rightarrow> bool" where
  "regex_special c = (c \<in> set ''.*+?^${}()|[]'' \<or> c = CHR 0x5C)"

definition escape_separator :: "string \<Rightarrow> string" where
  "escape_separator separator =
     concat (map (\<lambda>c. if regex_special c then [CHR 0x5C, c] else [c]) separator)"

text \<open>
  The pattern characters of an escaped separator: a backslash and the character after it
  are that character, any other character is itself.
\<close>

fun pattern_atoms :: "string \<Rightarrow> string" where
  "pattern_atoms [] = []"
| "pattern_atoms [c] = [c]"
| "pattern_atoms (c # d # r) =
     (if c = CHR 0x5C then d # pattern_atoms r else c # pattern_atoms (d # r))"

text \<open>
  The character class \<open>'[^a-z0-9' + escapedSeparator + ']'\<close>. After the two ranges the
  atoms of the separator are read as class ranges: \<open>x-y\<close> is a range, and a range out of
  order is a syntax error of \<open>new RegExp\<close> (\<open>None\<close>). A hyphen that is first, last or
  right after a range is a hyphen.
\<close>

fun class_ranges :: "string \<Rightarrow> (char \<times> char) list option" where
  "class_ranges [] = Some []"
| "class_ranges [a] = Some [(a, a)]"
| "class_ranges [a, b] = Some [(a, a), (b, b)]"
| "class_ranges (a # b # c # r) =
     (if b = CHR ''-''
      then (if (of_char a :: nat) \<le> of_char c
            then map_option ((#) (a, c)) (class_ranges r)
            else None)
      else map_option ((#) (a, a)) (class_ranges (b # c # r)))"

definition in_ranges :: "(char \<times> char) list \<Rightarrow> char \<Rightarrow> bool" where
  "in_ranges ranges c =
     list_ex (\<lambda>(lo, hi). (of_char lo :: nat) \<le> of_char c \<and> (of_char c :: nat) \<le> of_char hi) ranges"

definition url_safe_ranges :: "(char \<times> char) list" where
  "url_safe_ranges = [(CHR ''a'', CHR ''z''), (CHR ''0'', CHR ''9'')]"

text \<open>A character that the class \<open>[^...]\<close> matches: it is removed.\<close>

definition match_outside :: "(char \<times> char) list \<Rightarrow> string \<Rightarrow> string \<Rightarrow> nat option" where
  "match_outside ranges before rest =
     (case rest of [] \<Rightarrow> None | c # r \<Rightarrow> if in_ranges ranges c then None else Some 1)"

text \<open>
  \<open>escapedSeparator + '+'\<close>: the atoms in sequence, the last one repeated. Without an
  atom the pattern is \<open>+\<close>, a syntax error.
\<close>

definition match_separators :: "string \<Rightarrow> string \<Rightarrow> nat option" where
  "match_separators atoms rest =
     (let front = butlast atoms; l = last atoms
      in if take (length front) rest = front \<and> length front < length rest \<and>
            rest ! length front = l
         then Some (length front + length (takeWhile (\<lambda>c. c = l) (drop (length front) rest)))
         else None)"

text \<open>\<open>'^' + escapedSeparator + '+|' + escapedSeparator + '+$'\<close>.\<close>

definition match_leading_trailing :: "string \<Rightarrow> string \<Rightarrow> string \<Rightarrow> nat option" where
  "match_leading_trailing atoms before rest =
     (case match_separators atoms rest of
        None \<Rightarrow> None
      | Some k \<Rightarrow> if before = [] \<or> k = length rest then Some k else None)"

subsection \<open>The transforms\<close>

text \<open>
  \<open>transformReplaceSpaces(value, replaceWith)\<close>, for a string \<open>value\<close>:
  \<open>String.prototype.replace\<close> makes a string of the replacement.
\<close>

definition transformReplaceSpaces :: "runtime \<Rightarrow> string \<Rightarrow> jsval \<Rightarrow> js_error + string" where
  "transformReplaceSpaces rt val replaceWith0 =
     (let replaceWith = (if replaceWith0 = JUndefined \<or> replaceWith0 = JNull then JStr ''-'' else replaceWith0)
      in case to_string rt replaceWith of
           Inl e \<Rightarrow> Inl e
         | Inr r \<Rightarrow> Inr (replace_all match_spaces r [] val))"

text \<open>\<open>transformUrlSafe(value, separator)\<close>, for a string \<open>value\<close>.\<close>

definition transformUrlSafe :: "runtime \<Rightarrow> string \<Rightarrow> jsval \<Rightarrow> js_error + string" where
  "transformUrlSafe rt val separator0 =
     (let separator1 = (if separator0 = JUndefined \<or> separator0 = JNull then JStr ''-'' else separator0)
      in case separator1 of
        JStr separator \<Rightarrow>
          (let escapedSeparator = escape_separator separator;
               atoms = pattern_atoms escapedSeparator;
               result1 = toLowerCase rt val;
               result2 = replace_all match_spaces separator [] result1
           in case class_ranges atoms of
                None \<Rightarrow> Inl SyntaxError
              | Some ranges \<Rightarrow>
                  (let result3 = replace_all (match_outside (url_safe_ranges @ ranges)) [] [] result2
                   in if atoms = [] then Inl SyntaxError
                      else
                        (let result4 = replace_all (\<lambda>before. match_separators atoms) separator [] result3;
                             result5 = replace_all (match_leading_trailing atoms) [] [] result4
                         in Inr result5)))
      | _ \<Rightarrow> Inl TypeError)"


definition transformLowercase :: "runtime \<Rightarrow> string \<Rightarrow> string" where
  "transformLowercase rt val = toLowerCase rt val"

definition transformUppercase :: "runtime \<Rightarrow> string \<Rightarrow> string" where
  "transformUppercase rt val = toUpperCase rt val"

definition transformRemoveSpaces :: "string \<Rightarrow> string" where
  "transformRemoveSpaces val = replace_all match_spaces [] [] val"

text \<open>
  \<open>transformReplace(value, config)\<close>: the pattern comes from the configuration, so the
  replacement is the runtime's; an invalid pattern is caught and gives the value back.
\<close>

definition transformReplace :: "runtime \<Rightarrow> string \<Rightarrow> jsval \<Rightarrow> string" where
  "transformReplace rt val config =
     (if \<not> truthy (js_get rt config ''pattern'') then val
      else let replaceWith = (if js_get rt config ''replaceWith'' \<noteq> JUndefined
                              then js_get rt config ''replaceWith'' else JStr []);
               flags = js_or (js_get rt config ''flags'') (JStr ''g'')
           in case regexp_replace rt (js_get rt config ''pattern'') flags replaceWith val of
                Some r \<Rightarrow> r
              | None \<Rightarrow> val)"

text \<open>\<open>applyStringTransform\<close>: \<open>"name"\<close> or \<open>"name:param"\<close>.\<close>

definition applyStringTransform :: "runtime \<Rightarrow> string \<Rightarrow> string \<Rightarrow> js_error + string" where
  "applyStringTransform rt val transform =
     (let parts = split_on CHR '':'' transform;
          transformName = hd parts;
          parameter = (if length parts > 1 then JStr (join '':'' (tl parts)) else JNull)
      in if transformName = ''replaceSpaces''
           then transformReplaceSpaces rt val (if parameter \<noteq> JNull then parameter else JStr ''-'')
         else if transformName = ''urlSafe''
           then transformUrlSafe rt val (if parameter \<noteq> JNull then parameter else JStr ''-'')
         else if transformName = ''lowercase'' then Inr (transformLowercase rt val)
         else if transformName = ''uppercase'' then Inr (transformUppercase rt val)
         else if transformName = ''removeSpaces'' then Inr (transformRemoveSpaces val)
         else Inr val)"

text \<open>\<open>applyObjectTransform\<close>: \<open>{type: ..., ...}\<close>.\<close>

definition applyObjectTransform :: "runtime \<Rightarrow> string \<Rightarrow> jsval \<Rightarrow> js_error + string" where
  "applyObjectTransform rt val transform =
     (let type = js_get rt transform ''type''
      in if \<not> truthy type then Inr val
         else if type = JStr ''replaceSpaces''
           then transformReplaceSpaces rt val
                  (js_or (js_get rt transform ''with'') (js_or (js_get rt transform ''replaceWith'') (JStr ''-'')))
         else if type = JStr ''urlSafe''
           then transformUrlSafe rt val
                  (js_or (js_get rt transform ''with'') (js_or (js_get rt transform ''separator'') (JStr ''-'')))
         else if type = JStr ''lowercase'' then Inr (transformLowercase rt val)
         else if type = JStr ''uppercase'' then Inr (transformUppercase rt val)
         else if type = JStr ''removeSpaces'' then Inr (transformRemoveSpaces val)
         else if type = JStr ''replace'' then Inr (transformReplace rt val transform)
         else Inr val)"

text \<open>
  \<open>applyTransform(value, transform, fieldName)\<close>: a falsy value is returned as it is.
  Any other value is made a string first, with \<open>String(value)\<close> before the \<open>try\<close>:
  when that conversion throws, \<open>applyTransform\<close> throws. An exception of the transform
  itself is caught and gives the string back; so does one of the debug line after the
  transform, which calls \<open>JSON.stringify(transform)\<close>.
\<close>

definition transformed :: "runtime \<Rightarrow> string \<Rightarrow> jsval \<Rightarrow> js_error + string \<Rightarrow> jsval" where
  "transformed rt val transform r =
     (case r of
        Inl e \<Rightarrow> JStr val
      | Inr result \<Rightarrow>
          (if isDebugEnabled rt \<and> JSON_stringify rt transform = None then JStr val
           else JStr result))"

definition applyTransform :: "runtime \<Rightarrow> jsval \<Rightarrow> jsval \<Rightarrow> js_error + jsval" where
  "applyTransform rt value0 transform =
     (if \<not> truthy value0 then Inr value0
      else case to_string rt value0 of
             Inl e \<Rightarrow> Inl e
           | Inr val \<Rightarrow>
               Inr (if typeof transform = ''object'' \<and> transform \<noteq> JNull
                    then transformed rt val transform (applyObjectTransform rt val transform)
                    else case transform of
                           JStr t \<Rightarrow> transformed rt val transform (applyStringTransform rt val t)
                         | _ \<Rightarrow> JStr val))"

text \<open>The loop of \<open>applyMultipleTransforms\<close>, and the function.\<close>

fun transform_chain :: "runtime \<Rightarrow> jsval \<Rightarrow> jsval list \<Rightarrow> js_error + jsval" where
  "transform_chain rt result [] = Inr result"
| "transform_chain rt result (t # ts) =
     (case applyTransform rt result t of
        Inl e \<Rightarrow> Inl e
      | Inr result' \<Rightarrow> transform_chain rt result' ts)"

definition applyMultipleTransforms :: "runtime \<Rightarrow> jsval \<Rightarrow> jsval \<Rightarrow> js_error + jsval" where
  "applyMultipleTransforms rt value0 transforms =
     (case transforms of
        JArr ts \<Rightarrow> transform_chain rt value0 ts
      | _ \<Rightarrow> Inr value0)"

text \<open>
  The second loop of \<open>applyTransformsToFields\<close>, over the names it visits:
  \<open>result.hasOwnProperty(name)\<close>, then the transform of the field that \<open>result\<close> has.
\<close>

fun transform_loop ::
  "runtime \<Rightarrow> jsval \<Rightarrow> string list \<Rightarrow> (string \<times> jsval) list \<Rightarrow> js_error + (string \<times> jsval) list" where
  "transform_loop rt transforms [] result = Inr result"
| "transform_loop rt transforms (transformFieldName # rest) result =
     (case hasOwnProperty result transformFieldName of
        Inl e \<Rightarrow> Inl e
      | Inr has \<Rightarrow>
          (if has
           then (let originalValue = js_get rt (JObj result) transformFieldName;
                     transform = js_get rt transforms transformFieldName
                 in case (if isArray transform
                          then applyMultipleTransforms rt originalValue transform
                          else applyTransform rt originalValue transform) of
                      Inl e \<Rightarrow> Inl e
                    | Inr v \<Rightarrow> transform_loop rt transforms rest (obj_set result transformFieldName v))
           else transform_loop rt transforms rest result))"

text \<open>
  \<open>applyTransformsToFields(mappedFields, transforms)\<close>: a copy of the fields, then one
  round for each own property of \<open>transforms\<close>. Nothing catches: \<open>Inl e\<close> is the
  exception of a hidden \<open>hasOwnProperty\<close> or of \<open>String(value)\<close>.
\<close>

definition applyTransformsToFields :: "runtime \<Rightarrow> jsval \<Rightarrow> jsval \<Rightarrow> js_error + jsval" where
  "applyTransformsToFields rt mappedFields transforms =
     (if \<not> truthy transforms \<or> typeof transforms \<noteq> ''object'' then Inr mappedFields
      else case copy_properties rt mappedFields [] of
             Inl e \<Rightarrow> Inl e
           | Inr result \<Rightarrow>
               (case for_in_own transforms of
                  Inl e \<Rightarrow> Inl e
                | Inr names \<Rightarrow>
                    (case transform_loop rt transforms names result of
                       Inl e \<Rightarrow> Inl e
                     | Inr result' \<Rightarrow> Inr (JObj result'))))"

text \<open>The example of the JSDoc of \<open>applyTransformsToFields\<close>, with two more entries.\<close>

definition example_fields :: jsval where
  "example_fields =
     JObj [(''Title'', JStr ''How to Reset Password''),
           (''UrlName'', JStr ''How to Reset Password''),
           (''Slug__c'', JStr ''Product FAQ'')]"

definition example_transforms :: jsval where
  "example_transforms =
     JObj [(''UrlName'', JStr ''urlSafe:-''),
           (''Slug__c'', JStr ''replaceSpaces:_''),
           (''Summary'', JStr ''lowercase'')]"


text \<open>Fields and transforms with a key named \<open>hasOwnProperty\<close> or \<open>__proto__\<close>.\<close>

definition one_field :: jsval where
  "one_field = JObj [(''Title'', JStr ''a'')]"

definition shadowing_transforms :: jsval where
  "shadowing_transforms = JObj [(''hasOwnProperty'', JStr ''lowercase'')]"

definition proto_fields :: jsval where
  "proto_fields = JObj [(''Title'', JStr ''a''), (''__proto__'', JStr ''x'')]"
section \<open>Field mapper (contentMappingHelper.js)\<close>

text \<open>
  \<open>getNestedProperty(obj, path)\<close>. The loop over the segments of the path; a segment
  that is blank after trimming is skipped. \<open>current[part]\<close> reads what \<open>current\<close>
  inherits as well as what it owns.
\<close>

fun nested_loop :: "runtime \<Rightarrow> jsval \<Rightarrow> string list \<Rightarrow> jsval" where
  "nested_loop rt current [] = current"
| "nested_loop rt current (p # parts) =
     (if current = JNull \<or> current = JUndefined then JNull
      else let part = trim p
           in if part = [] then nested_loop rt current parts
              else nested_loop rt (js_get rt current part) parts)"

text \<open>A truthy path that is not a string has no \<open>split\<close> method: the call throws.\<close>

definition getNestedProperty :: "runtime \<Rightarrow> jsval \<Rightarrow> jsval \<Rightarrow> js_error + jsval" where
  "getNestedProperty rt obj path =
     (if \<not> truthy obj \<or> \<not> truthy path then Inr JNull
      else case path of
             JStr p \<Rightarrow> Inr (nested_loop rt obj (split_on CHR ''.'' p))
           | _ \<Rightarrow> Inl TypeError)"

text \<open>
  \<open>convertToSalesforceSafeValue(value)\<close>. An object is a rich text when it has
  \<open>markup\<close> or \<open>source\<close>; else its \<open>toString()\<close> is tried when it is a function (the
  call is \<open>String(value)\<close> then), and then \<open>JSON.stringify\<close>. The conversions to a
  string can throw, and the function catches only around \<open>JSON.stringify\<close>.
\<close>

definition as_JStr :: "js_error + string \<Rightarrow> js_error + jsval" where
  "as_JStr r = (case r of Inl e \<Rightarrow> Inl e | Inr s \<Rightarrow> Inr (JStr s))"

definition stringify_or_String :: "runtime \<Rightarrow> jsval \<Rightarrow> js_error + jsval" where
  "stringify_or_String rt v =
     (case JSON_stringify rt v of
        Some json \<Rightarrow> Inr json
      | None \<Rightarrow> as_JStr (to_string rt v))"

definition convertToSalesforceSafeValue :: "runtime \<Rightarrow> jsval \<Rightarrow> js_error + jsval" where
  "convertToSalesforceSafeValue rt v =
     (if v = JNull \<or> v = JUndefined then Inr JNull
      else if typeof v = ''string'' \<or> typeof v = ''number'' \<or> typeof v = ''boolean'' then Inr v
      else if typeof v = ''object''
        then (if js_get rt v ''markup'' \<noteq> JUndefined \<and> js_get rt v ''markup'' \<noteq> JNull
                then as_JStr (to_string rt (js_get rt v ''markup''))
              else if js_get rt v ''source'' \<noteq> JUndefined \<and> js_get rt v ''source'' \<noteq> JNull
                then as_JStr (to_string rt (js_get rt v ''source''))
              else if typeof (js_get rt v ''toString'') = ''function''
                then (case to_string rt v of
                        Inl e \<Rightarrow> Inl e
                      | Inr stringValue \<Rightarrow>
                          (if stringValue \<noteq> [] \<and> stringValue \<noteq> ''[object Object]''
                           then Inr (JStr stringValue)
                           else stringify_or_String rt v))
              else stringify_or_String rt v)
      else as_JStr (to_string rt v))"

text \<open>
  One round of the \<open>for (var sfField in fieldMapping)\<close> loop of \<open>mapContentToArticle\<close>,
  up to the test for inclusion: the safe value of the field, or the exception of
  \<open>getNestedProperty\<close>, of the conversion or of the debug log. With
  \<open>enableDebugLogging\<close> the raw value is joined to a string, unless it is a rich text.
\<close>

definition field_value ::
  "runtime \<Rightarrow> jsval \<Rightarrow> jsval \<Rightarrow> jsval \<Rightarrow> string \<Rightarrow> js_error + jsval" where
  "field_value rt contentAsset fieldMapping enableDebugLogging sfField =
     (case getNestedProperty rt contentAsset (js_get rt fieldMapping sfField) of
        Inl e \<Rightarrow> Inl e
      | Inr rawValue \<Rightarrow>
          (case convertToSalesforceSafeValue rt rawValue of
             Inl e \<Rightarrow> Inl e
           | Inr v \<Rightarrow>
               (if truthy enableDebugLogging
                   \<and> \<not> (truthy rawValue \<and> typeof rawValue = ''object''
                          \<and> (js_get rt rawValue ''markup'' \<noteq> JUndefined
                               \<or> js_get rt rawValue ''source'' \<noteq> JUndefined))
                   \<and> ToPrimitive_throws rt rawValue
                then Inl TypeError
                else Inr v)))"

text \<open>
  The loop, over the names of the own properties of \<open>fieldMapping\<close>. It returns the
  article and, when a round threw, the exception that ended the loop.
\<close>

fun map_fields ::
  "runtime \<Rightarrow> jsval \<Rightarrow> jsval \<Rightarrow> jsval \<Rightarrow> string list \<Rightarrow> (string \<times> jsval) list \<Rightarrow>
     (string \<times> jsval) list \<times> js_error option" where
  "map_fields rt contentAsset fieldMapping enableDebugLogging [] article = (article, None)"
| "map_fields rt contentAsset fieldMapping enableDebugLogging (sfField # rest) article =
     (case field_value rt contentAsset fieldMapping enableDebugLogging sfField of
        Inl e \<Rightarrow> (article, Some e)
      | Inr v \<Rightarrow>
          map_fields rt contentAsset fieldMapping enableDebugLogging rest
            (if v \<noteq> JNull \<and> v \<noteq> JUndefined \<and> v \<noteq> JStr []
             then obj_set article sfField v else article))"

text \<open>
  The log line at the head of \<open>mapContentToArticle\<close>, before the \<open>try\<close>, reads
  \<open>contentAsset.ID\<close> and joins it, \<open>articleType\<close> and \<open>isCreate\<close> to a string: it
  throws on a content asset that is \<open>null\<close> or \<open>undefined\<close>, and on a value that has
  no string form.
\<close>

definition mapping_log_throws :: "runtime \<Rightarrow> jsval \<Rightarrow> jsval \<Rightarrow> jsval \<Rightarrow> bool" where
  "mapping_log_throws rt contentAsset articleType isCreate =
     (contentAsset = JNull \<or> contentAsset = JUndefined
      \<or> ToPrimitive_throws rt (js_get rt contentAsset ''ID'')
      \<or> ToPrimitive_throws rt articleType
      \<or> ToPrimitive_throws rt isCreate)"

text \<open>
  \<open>mapContentToArticle(contentAsset, articleType, fieldMapping, dataCategory, isCreate,
  enableDebugLogging)\<close>: \<open>Inl e\<close> when the log line throws. An exception inside the
  \<open>try\<close> is logged and the article is returned as far as it got: a \<open>fieldMapping\<close>
  that hides \<open>hasOwnProperty\<close> throws in the first round and leaves \<open>{attributes}\<close>;
  after a throw of the loop neither \<open>Language\<close> nor the data category is added; and a
  truthy \<open>dataCategory\<close> that is not a string throws at \<open>trim\<close>, after \<open>Language\<close>.
\<close>

definition mapContentToArticle ::
  "runtime \<Rightarrow> jsval \<Rightarrow> jsval \<Rightarrow> jsval \<Rightarrow> jsval \<Rightarrow> jsval \<Rightarrow> jsval \<Rightarrow> js_error + jsval" where
  "mapContentToArticle rt contentAsset articleType fieldMapping dataCategory isCreate enableDebugLogging =
     (if mapping_log_throws rt contentAsset articleType isCreate then Inl TypeError
      else
        (let article0 = [(''attributes'', JObj [(''type'', articleType)])]
         in case for_in_own fieldMapping of
              Inl e \<Rightarrow> Inr (JObj article0)
            | Inr names \<Rightarrow>
                (case map_fields rt contentAsset fieldMapping enableDebugLogging names article0 of
                   (article1, Some e) \<Rightarrow> Inr (JObj article1)
                 | (article1, None) \<Rightarrow>
                     (let article2 = (if isCreate \<noteq> JBool False
                                      then obj_set article1 ''Language'' (JStr ''en_US'')
                                      else article1)
                      in if truthy dataCategory
                         then (case dataCategory of
                                 JStr d \<Rightarrow>
                                   (if trim d \<noteq> []
                                    then Inr (JObj (obj_set article2 ''DataCategorySelections''
                                                 (JObj [(''DataCategory'', dataCategory)])))
                                    else Inr (JObj article2))
                               | _ \<Rightarrow> Inr (JObj article2))
                         else Inr (JObj article2)))))"

text \<open>The content asset and the mapping of the end-to-end example of the specification.\<close>

definition example_asset :: jsval where
  "example_asset = JObj [(''ID'', JStr ''faq-001''), (''name'', JStr ''How to Reset Password?''),
                         (''pageDescription'', JStr [])]"

definition example_mapping :: jsval where
  "example_mapping = JObj [(''Title'', JStr ''name''), (''UrlName'', JStr ''name''),
                           (''Summary'', JStr ''pageDescription'')]"


text \<open>A mapping with a target named \<open>hasOwnProperty\<close>.\<close>

definition shadowing_mapping :: jsval where
  "shadowing_mapping = JObj [(''Title'', JStr ''name''), (''hasOwnProperty'', JStr ''ID'')]"
section \<open>Basic facts\<close>

lemma typeof_cases:
  "typeof v \<in> {''undefined'', ''object'', ''boolean'', ''number'', ''string'', ''function''}"
  by (cases v) simp_all

section \<open>Objects that the code builds by assignment\<close>

lemma map_of_obj_set:
  "k \<noteq> ''__proto__'' \<Longrightarrow> map_of (obj_set m k v) k' = (if k' = k then Some v else map_of m k')"
  by (simp add: obj_set_def update_conv')

lemma map_of_obj_set_other: "k' \<noteq> k \<Longrightarrow> map_of (obj_set m k v) k' = map_of m k'"
  by (simp add: obj_set_def update_conv')

lemma map_of_fold:
  "''__proto__'' \<notin> set ks \<Longrightarrow>
   map_of (foldl (\<lambda>m k. obj_set m k (f k)) m0 ks) k' =
     (if k' \<in> set ks then Some (f k') else map_of m0 k')"
  by (induction ks arbitrary: m0) (auto simp: map_of_obj_set)

lemma own_keys_map_of: "(k \<in> own_keys v) = (map_of (own_entries v) k \<noteq> None)"
  by (simp add: own_keys_def map_of_eq_None_iff)

lemma own_keys_JObj: "(k \<in> own_keys (JObj m)) = (map_of m k \<noteq> None)"
  by (simp add: own_keys_map_of)

lemma js_get_own: "map_of m k = Some v \<Longrightarrow> js_get rt (JObj m) k = v"
  by simp

lemma ordinary_keysD:
  assumes "ordinary_keys v"
  shows "for_in_own v = Inr (map fst (own_entries v))"
    and "''__proto__'' \<notin> set (map fst (own_entries v))"
    and "\<not> hasOwnProperty_shadowed v"
  using assms
  by (simp_all add: ordinary_keys_def for_in_own_def hasOwnProperty_shadowed_def map_of_eq_None_iff)

lemma copy_properties_Inr:
  assumes "ordinary_keys source"
  shows "\<exists>m. copy_properties rt source m0 = Inr m \<and>
           (\<forall>k. map_of m k = (if k \<in> own_keys source then Some (js_get rt source k) else map_of m0 k))"
  using ordinary_keysD(1,2) [OF assms]
  by (simp add: copy_properties_def map_of_fold own_keys_def)

lemma copy_properties_Inl:
  "hasOwnProperty_shadowed source \<Longrightarrow> copy_properties rt source m0 = Inl TypeError"
  by (simp add: copy_properties_def for_in_own_def)

section \<open>The batch orchestrator\<close>

lemma export_step_processed:
  "totalProcessed (fst (export_step f b xs i rs)) =
     totalProcessed (fst rs) + (min (i * b + b) (length xs) - i * b)"
  by (cases rs; cases "f (snd rs) (take (min (i * b + b) (length xs) - i * b) (drop (i * b) xs))")
    (auto simp: export_step_def Let_def split: sum.splits prod.splits)

lemma export_loop_processed:
  "i \<le> t \<Longrightarrow>
   totalProcessed (fst (export_loop f b xs t i rs)) =
     totalProcessed (fst rs) + (min (t * b) (length xs) - min (i * b) (length xs))"
proof (induction f b xs t i rs rule: export_loop.induct)
  case (1 f b xs t i rs)
  show ?case
  proof (cases "i < t")
    case True
    have step: "min (i * b + b) (length xs) - i * b =
        min ((i + 1) * b) (length xs) - min (i * b) (length xs)"
      by (simp add: min_def)
    have mono: "min (i * b) (length xs) \<le> min ((i + 1) * b) (length xs)"
      by (simp add: min_def)
    have "(i + 1) * b \<le> t * b"
      using True by (intro mult_le_mono1) simp
    then have mono2: "min ((i + 1) * b) (length xs) \<le> min (t * b) (length xs)"
      by (intro min.mono) simp_all
    show ?thesis
      using True "1.IH" [OF True] mono mono2
      by (subst export_loop.simps) (simp add: export_step_processed step del: mult_Suc)
  next
    case False
    with "1.prems" have "i = t" by simp
    then show ?thesis by (subst export_loop.simps) simp
  qed
qed

lemma ceil_div_covers: "0 < b \<Longrightarrow> n \<le> ((n + b - 1) div b) * (b::nat)"
proof -
  assume b: "0 < b"
  have "n + b - 1 = ((n + b - 1) div b) * b + (n + b - 1) mod b" by simp
  moreover have "(n + b - 1) mod b \<le> b - 1" using b by (simp add: less_Suc_eq_le [symmetric])
  ultimately show ?thesis using b by linarith
qed

lemma exportToExternalAPI_totalProcessed:
  assumes "0 < batchSize"
  shows "\<exists>result s'. exportToExternalAPI f s contentAssets batchSize = Some (result, s') \<and>
           totalProcessed result = length contentAssets"
proof (cases "contentAssets = []")
  case True
  then show ?thesis by (simp add: exportToExternalAPI_def)
next
  case False
  let ?r0 = "\<lparr>totalProcessed = 0, totalSuccess = 0, totalFailed = 0, export_errors = []\<rparr>"
  let ?t = "(length contentAssets + batchSize - 1) div batchSize"
  have "totalProcessed (fst (export_loop f batchSize contentAssets ?t 0 (?r0, s))) =
      min (?t * batchSize) (length contentAssets)"
    using export_loop_processed [of 0 ?t f batchSize contentAssets "(?r0, s)"] by simp
  also have "\<dots> = length contentAssets"
    using ceil_div_covers [OF assms, of "length contentAssets"] by simp
  finally show ?thesis
    using False assms
    by (cases "export_loop f batchSize contentAssets ?t 0 (?r0, s)")
      (simp add: exportToExternalAPI_def Let_def)
qed

text \<open>
  The slices. With a callback that records the batches it is given, whatever it returns or
  throws, the batches are the consecutive slices of \<open>batchSize\<close> records, in order.
\<close>

lemma export_step_calls:
  "snd (export_step (\<lambda>s batch. (r batch, s @ [batch])) b xs i (res, s0)) =
     s0 @ [take (min (i * b + b) (length xs) - i * b) (drop (i * b) xs)]"
  by (cases "r (take (min (i * b + b) (length xs) - i * b) (drop (i * b) xs))")
    (simp_all add: export_step_def Let_def)

lemma export_loop_calls:
  "i \<le> t \<Longrightarrow>
   snd (export_loop (\<lambda>s batch. (r batch, s @ [batch])) b xs t i (res, s0)) =
     s0 @ map (\<lambda>j. take (min (j * b + b) (length xs) - j * b) (drop (j * b) xs)) [i..<t]"
proof (induction "t - i" arbitrary: i res s0)
  case 0
  then have "i = t" by simp
  then show ?case by (subst export_loop.simps) simp
next
  case (Suc k)
  then have lt: "i < t" and k: "k = t - (i + 1)" and le: "i + 1 \<le> t" by simp_all
  obtain res1 s1 where step:
    "export_step (\<lambda>s batch. (r batch, s @ [batch])) b xs i (res, s0) = (res1, s1)"
    by (cases "export_step (\<lambda>s batch. (r batch, s @ [batch])) b xs i (res, s0)")
  have s1: "s1 = s0 @ [take (min (i * b + b) (length xs) - i * b) (drop (i * b) xs)]"
    using export_step_calls [of r b xs i res s0] step by simp
  show ?case
    using lt Suc.hyps(1) [OF k le, of res1 s1]
    by (subst export_loop.simps) (simp add: step s1 upt_conv_Cons del: mult_Suc)
qed

lemma slices_concat:
  "n * b \<le> length xs \<Longrightarrow>
   concat (map (\<lambda>j. take (min (j * b + b) (length xs) - j * b) (drop (j * b) xs)) [0..<n]) =
     take (n * b) xs"
proof (induction n)
  case 0
  show ?case by simp
next
  case (Suc n)
  then have le: "n * b \<le> length xs" and le': "n * b + b \<le> length xs" by simp_all
  have "take (n * b) xs @ take b (drop (n * b) xs) = take (n * b + b) xs"
    by (simp add: take_add)
  then show ?case
    using Suc.IH [OF le] le' by (simp add: min_absorb1 add.commute)
qed

lemma slices_cover:
  assumes "0 < b"
  shows "concat (map (\<lambda>j. take (min (j * b + b) (length xs) - j * b) (drop (j * b) xs))
           [0..<(length xs + b - 1) div b]) = xs"
proof (cases "xs = []")
  case True
  then show ?thesis using assms by simp
next
  case False
  let ?t = "(length xs + b - 1) div b"
  let ?slice = "\<lambda>j. take (min (j * b + b) (length xs) - j * b) (drop (j * b) xs)"
  have "0 < length xs" using False by simp
  then have "b \<le> length xs + b - 1" by linarith
  then have pos: "0 < ?t"
    using assms by (simp add: div_greater_zero_iff)
  then obtain n where t: "?t = Suc n" by (cases ?t) simp_all
  have "?t * b \<le> length xs + b - 1"
    by simp
  then have nb: "n * b \<le> length xs"
    using assms unfolding t by simp
  have cover: "length xs \<le> n * b + b"
    using ceil_div_covers [OF assms, of "length xs"] unfolding t by (simp add: add.commute)
  have "concat (map ?slice [0..<Suc n]) = take (n * b) xs @ ?slice n"
    using slices_concat [OF nb] by simp
  also have "?slice n = drop (n * b) xs"
    using cover by (simp add: min_absorb2)
  finally show ?thesis unfolding t by simp
qed

lemma slices_237_by_50:
  "length xs = 237 \<Longrightarrow>
   (length xs + 50 - 1) div 50 = 5 \<and>
   map (\<lambda>j. length (take (min (j * 50 + 50) (length xs) - j * 50) (drop (j * 50) xs))) [0..<5] =
     [50, 50, 50, 50, 37]"
proof -
  have "[0..<5] = [0, 1, 2, 3, 4::nat]" by (simp add: upt_rec)
  then show ?thesis if "length xs = 237" using that by simp
qed

text \<open>
  Claim C4 at a failing input: two records, batch size 50, and an upsert that reports
  failure for both (no service id in the configuration). \<open>exportBatch\<close> returns
  \<open>success: true\<close> with \<open>successCount = 0\<close> and \<open>failureCount = 2\<close>;
  \<open>exportToExternalAPI\<close> adds \<open>batchResult.successCount || batch.length\<close> to
  \<open>totalSuccess\<close>, which is the batch length when the count is 0, and never reads
  \<open>failureCount\<close>. The run reports two successes and no failure.
\<close>

theorem exportToExternalAPI_counts_failures_as_successes:
  "exportBatch rt (\<lambda>s a. (failed_upsert, s)) () two_assets =
     (\<lparr>batch_success = True, successCount = 0, failureCount = 2,
       details = [failed_upsert\<lparr>contentId := JStr ''faq-001''\<rparr>,
                  failed_upsert\<lparr>contentId := JStr ''faq-002''\<rparr>],
       batch_error = None\<rparr>, ()) \<and>
   exportToExternalAPI
       (\<lambda>s batch. (Inr (fst (exportBatch rt (\<lambda>s a. (failed_upsert, s)) s batch)), s)) () two_assets 50 =
     Some (\<lparr>totalProcessed = 2, totalSuccess = 2, totalFailed = 0, export_errors = []\<rparr>, ())"
  by (simp add: exportBatch_def exportToExternalAPI_def export_loop.simps export_step_def
      two_assets_def failed_upsert_def ToPrimitive_throws_def Let_def)

section \<open>Inheritance of the site configuration\<close>







text \<open>
  A key named \<open>__proto__\<close> in the block is lost: the effective configuration of
  \<open>{"_defaults": {}, "RefArch": {"articleType": "FAQ__kav", "__proto__": "x"}}\<close> has
  \<open>articleType\<close> only.
\<close>

lemma getSiteConfiguration_proto_key:
  "getSiteConfiguration example_runtime
     (JObj [(''_defaults'', JObj []),
            (''RefArch'', JObj [(''articleType'', JStr ''FAQ__kav''), (''__proto__'', JStr ''x'')])])
     ''RefArch'' =
   Inr (JObj [(''articleType'', JStr ''FAQ__kav'')])"
  by code_simp

section \<open>The delta filter keeps what changed since the last sync\<close>





section \<open>What the field mapper puts into the payload\<close>

lemma field_value_Inr:
  "field_value rt contentAsset fieldMapping enableDebugLogging f = Inr v \<Longrightarrow>
   \<exists>raw. getNestedProperty rt contentAsset (js_get rt fieldMapping f) = Inr raw \<and>
         convertToSalesforceSafeValue rt raw = Inr v"
  by (auto simp: field_value_def split: sum.splits if_splits)

lemma map_fields_completes:
  assumes "\<forall>f \<in> set names. \<exists>v. field_value rt contentAsset fieldMapping dbg f = Inr v"
    and "''__proto__'' \<notin> set names"
  shows "\<exists>article'. map_fields rt contentAsset fieldMapping dbg names article = (article', None) \<and>
           (\<forall>f. f \<notin> set names \<longrightarrow> map_of article' f = map_of article f) \<and>
           (\<forall>f \<in> set names. \<exists>v.
              field_value rt contentAsset fieldMapping dbg f = Inr v \<and>
              (if v \<noteq> JNull \<and> v \<noteq> JUndefined \<and> v \<noteq> JStr []
               then map_of article' f = Some v
               else map_of article' f = map_of article f))"
  using assms
proof (induction names arbitrary: article)
  case Nil
  show ?case by simp
next
  case (Cons name names)
  from Cons.prems(1) obtain v where v: "field_value rt contentAsset fieldMapping dbg name = Inr v"
    by auto
  have name: "name \<noteq> ''__proto__''" and proto: "''__proto__'' \<notin> set names"
    using Cons.prems(2) by auto
  define article1 where
    "article1 = (if v \<noteq> JNull \<and> v \<noteq> JUndefined \<and> v \<noteq> JStr [] then obj_set article name v else article)"
  have step: "map_fields rt contentAsset fieldMapping dbg (name # names) article =
      map_fields rt contentAsset fieldMapping dbg names article1"
    by (simp add: v article1_def)
  from Cons.prems(1) have rest: "\<forall>f \<in> set names. \<exists>v. field_value rt contentAsset fieldMapping dbg f = Inr v"
    by simp
  from Cons.IH [OF rest proto, of article1] obtain article' where
    run: "map_fields rt contentAsset fieldMapping dbg names article1 = (article', None)" and
    frame: "\<forall>f. f \<notin> set names \<longrightarrow> map_of article' f = map_of article1 f" and
    each: "\<forall>f \<in> set names. \<exists>v.
              field_value rt contentAsset fieldMapping dbg f = Inr v \<and>
              (if v \<noteq> JNull \<and> v \<noteq> JUndefined \<and> v \<noteq> JStr []
               then map_of article' f = Some v
               else map_of article' f = map_of article1 f)"
    by blast
  have a1: "\<And>f. f \<noteq> name \<Longrightarrow> map_of article1 f = map_of article f"
    by (simp add: article1_def map_of_obj_set_other)
  have a1_name: "if v \<noteq> JNull \<and> v \<noteq> JUndefined \<and> v \<noteq> JStr []
      then map_of article1 name = Some v else map_of article1 name = map_of article name"
    using name by (simp add: article1_def map_of_obj_set)
  have "\<forall>f. f \<notin> set (name # names) \<longrightarrow> map_of article' f = map_of article f"
    using frame a1 by simp
  moreover have "\<forall>f \<in> set (name # names). \<exists>v.
              field_value rt contentAsset fieldMapping dbg f = Inr v \<and>
              (if v \<noteq> JNull \<and> v \<noteq> JUndefined \<and> v \<noteq> JStr []
               then map_of article' f = Some v
               else map_of article' f = map_of article f)"
  proof
    fix f assume f: "f \<in> set (name # names)"
    show "\<exists>v. field_value rt contentAsset fieldMapping dbg f = Inr v \<and>
              (if v \<noteq> JNull \<and> v \<noteq> JUndefined \<and> v \<noteq> JStr []
               then map_of article' f = Some v
               else map_of article' f = map_of article f)"
    proof (cases "f \<in> set names")
      case True
      with each obtain v' where
        r': "field_value rt contentAsset fieldMapping dbg f = Inr v'" and
        e: "if v' \<noteq> JNull \<and> v' \<noteq> JUndefined \<and> v' \<noteq> JStr []
            then map_of article' f = Some v'
            else map_of article' f = map_of article1 f"
        by blast
      show ?thesis
      proof (cases "f = name")
        case False
        then show ?thesis using r' e a1 [OF False] by auto
      next
        case same: True
        with r' v have "v' = v" by simp
        then show ?thesis
          using r' e a1_name same by auto
      qed
    next
      case False
      with f have same: "f = name" by simp
      have "map_of article' name = map_of article1 name"
        using frame False same by simp
      then show ?thesis
        using v a1_name same by auto
    qed
  qed
  ultimately show ?case
    unfolding step using run by blast
qed

lemma mapContentToArticle_shape:
  assumes "\<not> mapping_log_throws rt contentAsset articleType isCreate"
    and "for_in_own fieldMapping = Inr names"
    and "map_fields rt contentAsset fieldMapping dbg names
             [(''attributes'', JObj [(''type'', articleType)])] = (article1, None)"
  shows "\<exists>payload.
           mapContentToArticle rt contentAsset articleType fieldMapping dataCategory isCreate dbg =
             Inr (JObj payload) \<and>
           (\<forall>f. f \<noteq> ''Language'' \<longrightarrow> f \<noteq> ''DataCategorySelections'' \<longrightarrow>
                map_of payload f = map_of article1 f) \<and>
           (isCreate = JBool True \<longrightarrow> map_of payload ''Language'' = Some (JStr ''en_US'')) \<and>
           (isCreate = JBool False \<longrightarrow> map_of payload ''Language'' = map_of article1 ''Language'')"
  by (cases dataCategory)
    (simp_all add: mapContentToArticle_def assms Let_def obj_set_def update_conv')

lemma mapping_log_throws_bool:
  "\<not> mapping_log_throws rt contentAsset articleType isCreate \<Longrightarrow>
   \<not> mapping_log_throws rt contentAsset articleType (JBool b)"
  by (simp add: mapping_log_throws_def ToPrimitive_throws_def)

text \<open>
  Claim C7, as the code has it. The statement is for a call in which nothing throws: the
  log line at the head, the call of \<open>fieldMapping.hasOwnProperty\<close> (the mapping has no
  own key \<open>hasOwnProperty\<close>; nor \<open>__proto__\<close>, which an assignment cannot create), and
  every round of the loop (the source paths are strings or falsy, and the values have a
  string form). The payload starts as \<open>{attributes: {type}}\<close>, and \<open>Language\<close> and
  \<open>DataCategorySelections\<close> are written after the mapping loop, so these three names are
  set apart: every other target field of the mapping is in the payload exactly when its
  safe value is neither \<open>null\<close>, \<open>undefined\<close> nor the empty string, and then with that
  value. A create payload has \<open>Language = 'en_US'\<close>. An update payload has no
  \<open>Language\<close> unless the mapping itself has a target of that name.
\<close>

theorem mapContentToArticle_payload:
  assumes log: "\<not> mapping_log_throws rt contentAsset articleType isCreate"
    and keys: "ordinary_keys fieldMapping"
    and rounds: "\<forall>f \<in> own_keys fieldMapping.
                   \<exists>v. field_value rt contentAsset fieldMapping enableDebugLogging f = Inr v"
  shows "(\<exists>payload.
            mapContentToArticle rt contentAsset articleType fieldMapping dataCategory isCreate
              enableDebugLogging = Inr payload \<and>
            (\<forall>f \<in> own_keys fieldMapping.
               f \<noteq> ''attributes'' \<longrightarrow> f \<noteq> ''Language'' \<longrightarrow> f \<noteq> ''DataCategorySelections'' \<longrightarrow>
               (\<exists>raw v. getNestedProperty rt contentAsset (js_get rt fieldMapping f) = Inr raw \<and>
                  convertToSalesforceSafeValue rt raw = Inr v \<and>
                  (f \<in> own_keys payload) = (v \<noteq> JNull \<and> v \<noteq> JUndefined \<and> v \<noteq> JStr []) \<and>
                  (f \<in> own_keys payload \<longrightarrow> js_get rt payload f = v)))) \<and>
         (\<exists>payload.
            mapContentToArticle rt contentAsset articleType fieldMapping dataCategory (JBool True)
              enableDebugLogging = Inr payload \<and>
            js_get rt payload ''Language'' = JStr ''en_US'') \<and>
         (''Language'' \<notin> own_keys fieldMapping \<longrightarrow>
            (\<exists>payload.
               mapContentToArticle rt contentAsset articleType fieldMapping dataCategory (JBool False)
                 enableDebugLogging = Inr payload \<and>
               ''Language'' \<notin> own_keys payload))"
proof -
  let ?names = "map fst (own_entries fieldMapping)"
  let ?article0 = "[(''attributes'', JObj [(''type'', articleType)])]"
  have names: "set ?names = own_keys fieldMapping"
    by (simp add: own_keys_def)
  have loop: "for_in_own fieldMapping = Inr ?names"
    by (rule ordinary_keysD(1) [OF keys])
  from map_fields_completes [of ?names rt contentAsset fieldMapping enableDebugLogging ?article0]
    rounds ordinary_keysD(2) [OF keys]
  obtain article1 where
    run: "map_fields rt contentAsset fieldMapping enableDebugLogging ?names ?article0 = (article1, None)" and
    frame: "\<forall>f. f \<notin> own_keys fieldMapping \<longrightarrow> map_of article1 f = map_of ?article0 f" and
    each: "\<forall>f \<in> own_keys fieldMapping. \<exists>v.
              field_value rt contentAsset fieldMapping enableDebugLogging f = Inr v \<and>
              (if v \<noteq> JNull \<and> v \<noteq> JUndefined \<and> v \<noteq> JStr []
               then map_of article1 f = Some v
               else map_of article1 f = map_of ?article0 f)"
    unfolding names by blast
  have fields: "\<exists>payload.
            mapContentToArticle rt contentAsset articleType fieldMapping dataCategory isCreate
              enableDebugLogging = Inr payload \<and>
            (\<forall>f \<in> own_keys fieldMapping.
               f \<noteq> ''attributes'' \<longrightarrow> f \<noteq> ''Language'' \<longrightarrow> f \<noteq> ''DataCategorySelections'' \<longrightarrow>
               (\<exists>raw v. getNestedProperty rt contentAsset (js_get rt fieldMapping f) = Inr raw \<and>
                  convertToSalesforceSafeValue rt raw = Inr v \<and>
                  (f \<in> own_keys payload) = (v \<noteq> JNull \<and> v \<noteq> JUndefined \<and> v \<noteq> JStr []) \<and>
                  (f \<in> own_keys payload \<longrightarrow> js_get rt payload f = v)))"
  proof -
    from mapContentToArticle_shape [OF log loop run, of dataCategory] obtain payload where
      p: "mapContentToArticle rt contentAsset articleType fieldMapping dataCategory isCreate
            enableDebugLogging = Inr (JObj payload)" and
      same: "\<forall>f. f \<noteq> ''Language'' \<longrightarrow> f \<noteq> ''DataCategorySelections'' \<longrightarrow>
                map_of payload f = map_of article1 f"
      by blast
    have "\<exists>raw v. getNestedProperty rt contentAsset (js_get rt fieldMapping f) = Inr raw \<and>
                  convertToSalesforceSafeValue rt raw = Inr v \<and>
                  (f \<in> own_keys (JObj payload)) = (v \<noteq> JNull \<and> v \<noteq> JUndefined \<and> v \<noteq> JStr []) \<and>
                  (f \<in> own_keys (JObj payload) \<longrightarrow> js_get rt (JObj payload) f = v)"
      if f: "f \<in> own_keys fieldMapping" and
        ne: "f \<noteq> ''attributes''" "f \<noteq> ''Language''" "f \<noteq> ''DataCategorySelections''" for f
    proof -
      from each f obtain v where
        fv: "field_value rt contentAsset fieldMapping enableDebugLogging f = Inr v" and
        v: "if v \<noteq> JNull \<and> v \<noteq> JUndefined \<and> v \<noteq> JStr []
            then map_of article1 f = Some v
            else map_of article1 f = map_of ?article0 f"
        by blast
      from field_value_Inr [OF fv] obtain raw where
        raw: "getNestedProperty rt contentAsset (js_get rt fieldMapping f) = Inr raw"
          "convertToSalesforceSafeValue rt raw = Inr v"
        by blast
      have s: "map_of payload f = map_of article1 f"
        using same ne by simp
      show ?thesis
      proof (cases "v \<noteq> JNull \<and> v \<noteq> JUndefined \<and> v \<noteq> JStr []")
        case True
        with v have "map_of payload f = Some v" using s by simp
        then show ?thesis
          using raw True unfolding own_keys_JObj
          by (intro exI [of _ raw] exI [of _ v]) simp
      next
        case False
        with v have "map_of payload f = None" using s ne(1) by simp
        then show ?thesis
          using raw False unfolding own_keys_JObj
          by (intro exI [of _ raw] exI [of _ v]) simp
      qed
    qed
    then show ?thesis
      using p by blast
  qed
  have create: "\<exists>payload.
            mapContentToArticle rt contentAsset articleType fieldMapping dataCategory (JBool True)
              enableDebugLogging = Inr payload \<and>
            js_get rt payload ''Language'' = JStr ''en_US''"
  proof -
    from mapContentToArticle_shape [OF mapping_log_throws_bool [OF log, of True] loop run, of dataCategory]
    obtain payload where
      p: "mapContentToArticle rt contentAsset articleType fieldMapping dataCategory (JBool True)
            enableDebugLogging = Inr (JObj payload)" and
      l: "map_of payload ''Language'' = Some (JStr ''en_US'')"
      by blast
    have "js_get rt (JObj payload) ''Language'' = JStr ''en_US''"
      using l by (rule js_get_own)
    then show ?thesis using p by blast
  qed
  have update: "\<exists>payload.
               mapContentToArticle rt contentAsset articleType fieldMapping dataCategory (JBool False)
                 enableDebugLogging = Inr payload \<and>
               ''Language'' \<notin> own_keys payload"
    if "''Language'' \<notin> own_keys fieldMapping"
  proof -
    have none: "map_of article1 ''Language'' = None"
      using frame that by simp
    from mapContentToArticle_shape [OF mapping_log_throws_bool [OF log, of False] loop run, of dataCategory]
    obtain payload where
      p: "mapContentToArticle rt contentAsset articleType fieldMapping dataCategory (JBool False)
            enableDebugLogging = Inr (JObj payload)" and
      l: "map_of payload ''Language'' = map_of article1 ''Language''"
      by blast
    have "''Language'' \<notin> own_keys (JObj payload)"
      unfolding own_keys_JObj using l none by simp
    then show ?thesis using p by blast
  qed
  show ?thesis
    using fields create update by blast
qed

theorem mapContentToArticle_payload_witness:
  "\<not> mapping_log_throws example_runtime example_asset (JStr ''Knowledge__kav'') (JBool True) \<and>
   ordinary_keys example_mapping \<and>
   field_value example_runtime example_asset example_mapping (JBool False) ''Title'' =
     Inr (JStr ''How to Reset Password?'') \<and>
   field_value example_runtime example_asset example_mapping (JBool False) ''UrlName'' =
     Inr (JStr ''How to Reset Password?'') \<and>
   field_value example_runtime example_asset example_mapping (JBool False) ''Summary'' = Inr (JStr []) \<and>
   mapContentToArticle example_runtime example_asset (JStr ''Knowledge__kav'') example_mapping JNull
       (JBool True) (JBool False) =
     Inr (JObj [(''attributes'', JObj [(''type'', JStr ''Knowledge__kav'')]),
                (''Title'', JStr ''How to Reset Password?''),
                (''UrlName'', JStr ''How to Reset Password?''),
                (''Language'', JStr ''en_US'')]) \<and>
   mapContentToArticle example_runtime example_asset (JStr ''Knowledge__kav'') example_mapping JNull
       (JBool False) (JBool False) =
     Inr (JObj [(''attributes'', JObj [(''type'', JStr ''Knowledge__kav'')]),
                (''Title'', JStr ''How to Reset Password?''),
                (''UrlName'', JStr ''How to Reset Password?'')])"
proof -
  have log: "\<not> mapping_log_throws example_runtime example_asset (JStr ''Knowledge__kav'') (JBool True)"
    by (simp add: mapping_log_throws_def example_asset_def ToPrimitive_throws_def)
  have keys: "ordinary_keys example_mapping"
    by (simp add: ordinary_keys_def example_mapping_def)
  have rounds_run:
    "field_value example_runtime example_asset example_mapping (JBool False) ''Title'' =
       Inr (JStr ''How to Reset Password?'')"
    "field_value example_runtime example_asset example_mapping (JBool False) ''UrlName'' =
       Inr (JStr ''How to Reset Password?'')"
    "field_value example_runtime example_asset example_mapping (JBool False) ''Summary'' = Inr (JStr [])"
    by code_simp+
  have rounds: "\<forall>f \<in> own_keys example_mapping.
      \<exists>v. field_value example_runtime example_asset example_mapping (JBool False) f = Inr v"
    using rounds_run by (simp add: own_keys_def example_mapping_def)
  have run: "mapContentToArticle example_runtime example_asset (JStr ''Knowledge__kav'') example_mapping JNull
       (JBool True) (JBool False) =
     Inr (JObj [(''attributes'', JObj [(''type'', JStr ''Knowledge__kav'')]),
                (''Title'', JStr ''How to Reset Password?''),
                (''UrlName'', JStr ''How to Reset Password?''),
                (''Language'', JStr ''en_US'')])"
    "mapContentToArticle example_runtime example_asset (JStr ''Knowledge__kav'') example_mapping JNull
       (JBool False) (JBool False) =
     Inr (JObj [(''attributes'', JObj [(''type'', JStr ''Knowledge__kav'')]),
                (''Title'', JStr ''How to Reset Password?''),
                (''UrlName'', JStr ''How to Reset Password?'')])"
    by code_simp+
  show ?thesis
    using log keys rounds_run mapContentToArticle_payload [OF log keys rounds, of JNull]
    by (simp add: run)
qed

text \<open>
  The claim as stated fails at a mapping with the target \<open>Language\<close>: the loop writes
  the mapped value, and the update payload has a \<open>Language\<close> field.
\<close>

theorem mapContentToArticle_mapped_Language:
  "mapContentToArticle example_runtime example_asset (JStr ''Knowledge__kav'')
      (JObj [(''Language'', JStr ''name'')]) JNull (JBool False) (JBool False) =
     Inr (JObj [(''attributes'', JObj [(''type'', JStr ''Knowledge__kav'')]),
                (''Language'', JStr ''How to Reset Password?'')])"
  by code_simp

text \<open>
  Three more runs of the code outside the statement above. A mapping with a target named
  \<open>hasOwnProperty\<close> throws in the first round, inside the \<open>try\<close>: the payload is
  \<open>{attributes}\<close>, without \<open>Title\<close> and, on a create, without \<open>Language\<close>. A content
  asset that is \<open>null\<close> throws at the log line, outside the \<open>try\<close>. A path can reach
  what a value inherits: \<open>constructor.name\<close> is \<open>'Object'\<close> on a plain object.
\<close>

lemma mapContentToArticle_shadowed_mapping:
  "mapContentToArticle example_runtime example_asset (JStr ''Knowledge__kav'') shadowing_mapping JNull
      (JBool True) (JBool False) =
     Inr (JObj [(''attributes'', JObj [(''type'', JStr ''Knowledge__kav'')])])"
  by code_simp

lemma mapContentToArticle_null_asset:
  "mapContentToArticle rt JNull articleType fieldMapping dataCategory isCreate enableDebugLogging =
     Inl TypeError"
  by (simp add: mapContentToArticle_def mapping_log_throws_def)

lemma getNestedProperty_inherited:
  "getNestedProperty example_runtime example_asset (JStr ''constructor.name'') = Inr (JStr ''Object'')"
  by code_simp

section \<open>The URL-safe transform\<close>

lemma escape_separator_Nil [simp]: "escape_separator [] = []"
  by (simp add: escape_separator_def)

lemma escape_separator_Cons:
  "escape_separator (c # s) =
     (if regex_special c then CHR 0x5C # c # escape_separator s else c # escape_separator s)"
  by (simp add: escape_separator_def)

lemma pattern_atoms_escape: "pattern_atoms (escape_separator s) = s"
proof (induction s)
  case Nil
  show ?case by simp
next
  case (Cons c s)
  show ?case
  proof (cases "regex_special c")
    case True
    then show ?thesis
      using Cons.IH by (simp add: escape_separator_Cons)
  next
    case False
    then have c: "c \<noteq> CHR 0x5C" by (auto simp: regex_special_def)
    show ?thesis
    proof (cases "escape_separator s")
      case Nil
      then show ?thesis using False Cons.IH by (simp add: escape_separator_Cons)
    next
      case (Cons d r)
      then show ?thesis using False c Cons.IH by (simp add: escape_separator_Cons)
    qed
  qed
qed

lemma substitution_single [simp]: "substitution [c] before matched after = [c]"
  by simp

lemma substitution_empty [simp]: "substitution [] before matched after = []"
  by simp

text \<open>Removing what is outside the class is a filter.\<close>

lemma replace_all_outside:
  "replace_all (match_outside ranges) [] before s = filter (in_ranges ranges) s"
  by (induction s arbitrary: before) (simp_all add: replace_all.simps match_outside_def)

text \<open>One separator character \<open>c\<close>: the pattern \<open>c+\<close> matches a maximal run of it.\<close>

lemma match_separators_single:
  "match_separators [c] rest =
     (case rest of
        [] \<Rightarrow> None
      | x # xs \<Rightarrow> if x = c then Some (Suc (length (takeWhile (\<lambda>y. y = c) xs))) else None)"
  by (cases rest) (simp_all add: match_separators_def)

lemma collapse_Nil: "replace_all (\<lambda>before. match_separators [c]) [c] before [] = []"
  by (simp add: replace_all.simps match_separators_single)

lemma collapse_other:
  "x \<noteq> c \<Longrightarrow>
   replace_all (\<lambda>before. match_separators [c]) [c] before (x # xs) =
     x # replace_all (\<lambda>before. match_separators [c]) [c] (before @ [x]) xs"
  by (simp add: replace_all.simps match_separators_single)

lemma collapse_run:
  "replace_all (\<lambda>before. match_separators [c]) [c] before (c # xs) =
     c # replace_all (\<lambda>before. match_separators [c]) [c]
           (before @ c # takeWhile (\<lambda>y. y = c) xs) (dropWhile (\<lambda>y. y = c) xs)"
  by (simp add: replace_all.simps match_separators_single
      takeWhile_eq_take [symmetric] dropWhile_eq_drop [symmetric])

lemma collapse_subset:
  "set (replace_all (\<lambda>before. match_separators [c]) [c] before s) \<subseteq> set s"
proof (induction s arbitrary: before rule: length_induct)
  case (1 s)
  show ?case
  proof (cases s)
    case Nil
    then show ?thesis by (simp add: collapse_Nil)
  next
    case (Cons x xs)
    show ?thesis
    proof (cases "x = c")
      case False
      have "length xs < length s" using Cons by simp
      with 1 have "set (replace_all (\<lambda>before. match_separators [c]) [c] (before @ [x]) xs) \<subseteq> set xs"
        by blast
      then show ?thesis using False Cons by (auto simp: collapse_other)
    next
      case True
      have "length (dropWhile (\<lambda>y. y = c) xs) < length s"
        using Cons length_dropWhile_le [of "\<lambda>y. y = c" xs] by simp
      with 1 have "set (replace_all (\<lambda>before. match_separators [c]) [c]
            (before @ c # takeWhile (\<lambda>y. y = c) xs) (dropWhile (\<lambda>y. y = c) xs))
          \<subseteq> set (dropWhile (\<lambda>y. y = c) xs)"
        by blast
      moreover have "set (dropWhile (\<lambda>y. y = c) xs) \<subseteq> set xs"
        by (rule set_dropWhileD [THEN subsetI])
      ultimately show ?thesis using True Cons by (auto simp: collapse_run)
    qed
  qed
qed

lemma sublist_pair_Cons:
  "sublist [c, c] (x # y # r) = ((x = c \<and> y = c) \<or> sublist [c, c] (y # r))"
  by (auto simp: sublist_Cons_right)

lemma collapse_no_double:
  "\<not> sublist [c, c] (replace_all (\<lambda>before. match_separators [c]) [c] before s)"
proof (induction s arbitrary: before rule: length_induct)
  case (1 s)
  show ?case
  proof (cases s)
    case Nil
    then show ?thesis by (simp add: collapse_Nil)
  next
    case (Cons x xs)
    show ?thesis
    proof (cases "x = c")
      case False
      have len: "length xs < length s" using Cons by simp
      have IH: "\<not> sublist [c, c] (replace_all (\<lambda>before. match_separators [c]) [c] (before @ [x]) xs)"
        using 1 len by blast
      show ?thesis
        using False IH Cons
        by (cases "replace_all (\<lambda>before. match_separators [c]) [c] (before @ [x]) xs")
          (simp_all add: collapse_other sublist_pair_Cons sublist_Cons_right)
    next
      case True
      let ?b = "before @ c # takeWhile (\<lambda>y. y = c) xs"
      let ?d = "dropWhile (\<lambda>y. y = c) xs"
      have len: "length ?d < length s"
        using Cons length_dropWhile_le [of "\<lambda>y. y = c" xs] by simp
      have IH: "\<not> sublist [c, c] (replace_all (\<lambda>before. match_separators [c]) [c] ?b ?d)"
        using 1 len by blast
      show ?thesis
      proof (cases ?d)
        case Nil
        have "replace_all (\<lambda>before. match_separators [c]) [c] ?b ?d = []"
          unfolding Nil by (rule collapse_Nil)
        then show ?thesis using True Cons by (simp add: collapse_run sublist_Cons_right)
      next
        case d: (Cons y ys)
        have y: "y \<noteq> c"
          using hd_dropWhile [of "\<lambda>y. y = c" xs] d by auto
        have "replace_all (\<lambda>before. match_separators [c]) [c] ?b ?d =
            y # replace_all (\<lambda>before. match_separators [c]) [c] (?b @ [y]) ys"
          unfolding d using y by (rule collapse_other)
        then show ?thesis
          using IH y True Cons by (simp add: collapse_run sublist_pair_Cons)
      qed
    qed
  qed
qed

text \<open>
  One separator character \<open>c\<close>: \<open>^c+|c+$\<close> removes the run of \<open>c\<close> at the start and
  the run at the end.
\<close>

lemma strip_end_Cons:
  "rev (dropWhile (\<lambda>y. y = c) (rev (x # xs))) =
     (if x = c \<and> (\<forall>y \<in> set xs. y = c) then [] else x # rev (dropWhile (\<lambda>y. y = c) (rev xs)))"
  by (auto simp: dropWhile_append)

lemma strip_end_snoc:
  "rev (dropWhile (\<lambda>y. y = c) (rev xs @ [x])) =
     (if x = c \<and> (\<forall>y \<in> set xs. y = c) then [] else x # rev (dropWhile (\<lambda>y. y = c) (rev xs)))"
  using strip_end_Cons [of c x xs] by simp

lemma takeWhile_all: "length (takeWhile P xs) = length xs \<longleftrightarrow> (\<forall>y \<in> set xs. P y)"
  by (metis takeWhile_eq_all_conv length_takeWhile_le takeWhile_eq_take take_all_iff order_refl)

lemma trim_inner:
  "before \<noteq> [] \<Longrightarrow>
   replace_all (match_leading_trailing [c]) [] before s = rev (dropWhile (\<lambda>y. y = c) (rev s))"
proof (induction s arbitrary: before)
  case Nil
  then show ?case
    by (simp add: replace_all.simps match_leading_trailing_def match_separators_single)
next
  case (Cons x xs)
  have IH: "replace_all (match_leading_trailing [c]) [] (before @ [x]) xs =
      rev (dropWhile (\<lambda>y. y = c) (rev xs))"
    by (rule Cons.IH) simp
  show ?case
  proof (cases "x = c \<and> (\<forall>y \<in> set xs. y = c)")
    case True
    then have all: "length (takeWhile (\<lambda>y. y = c) xs) = length xs"
      by (simp add: takeWhile_all)
    have "replace_all (match_leading_trailing [c]) [] before (x # xs) =
        replace_all (match_leading_trailing [c]) [] (before @ x # xs) []"
      using True all Cons.prems
      by (simp add: replace_all.simps(2) match_leading_trailing_def match_separators_single)
    also have "\<dots> = []"
      by (simp add: replace_all.simps(1) match_leading_trailing_def match_separators_single)
    finally show ?thesis
      using True unfolding strip_end_Cons by simp
  next
    case False
    then have "match_leading_trailing [c] before (x # xs) = None"
      using Cons.prems
      by (auto simp: match_leading_trailing_def match_separators_single takeWhile_all)
    then have "replace_all (match_leading_trailing [c]) [] before (x # xs) =
        x # replace_all (match_leading_trailing [c]) [] (before @ [x]) xs"
      by (simp add: replace_all.simps(2))
    then show ?thesis
      using False IH unfolding strip_end_Cons by auto
  qed
qed

lemma trim_both:
  "replace_all (match_leading_trailing [c]) [] [] s =
     rev (dropWhile (\<lambda>y. y = c) (rev (dropWhile (\<lambda>y. y = c) s)))"
proof (cases s)
  case Nil
  then show ?thesis
    by (simp add: replace_all.simps match_leading_trailing_def match_separators_single)
next
  case (Cons x xs)
  show ?thesis
  proof (cases "x = c")
    case False
    then have "match_leading_trailing [c] [] (x # xs) = None"
      by (simp add: match_leading_trailing_def match_separators_single)
    then have "replace_all (match_leading_trailing [c]) [] [] (x # xs) =
        x # replace_all (match_leading_trailing [c]) [] [x] xs"
      by (simp add: replace_all.simps(2))
    also have "\<dots> = x # rev (dropWhile (\<lambda>y. y = c) (rev xs))"
      by (simp add: trim_inner)
    finally show ?thesis
      using False Cons by (simp add: strip_end_snoc)
  next
    case True
    have "replace_all (match_leading_trailing [c]) [] [] (x # xs) =
        replace_all (match_leading_trailing [c]) [] (c # takeWhile (\<lambda>y. y = c) xs)
          (dropWhile (\<lambda>y. y = c) xs)"
      using True
      by (simp add: replace_all.simps(2) match_leading_trailing_def match_separators_single
          takeWhile_eq_take [symmetric] dropWhile_eq_drop [symmetric])
    also have "\<dots> = rev (dropWhile (\<lambda>y. y = c) (rev (dropWhile (\<lambda>y. y = c) xs)))"
      by (rule trim_inner) simp
    finally show ?thesis
      using True Cons by simp
  qed
qed

lemma in_ranges_append: "in_ranges (rs @ rs') x = (in_ranges rs x \<or> in_ranges rs' x)"
  by (simp add: in_ranges_def)

lemma in_ranges_single: "in_ranges [(c, c)] x = (x = c)"
  by (auto simp: in_ranges_def)

lemma strip_is_sublist:
  "sublist (rev (dropWhile P (rev (dropWhile P t)))) t"
proof -
  define d where "d = dropWhile P t"
  define r where "r = rev (dropWhile P (rev d))"
  have "r @ rev (takeWhile P (rev d)) = rev (takeWhile P (rev d) @ dropWhile P (rev d))"
    unfolding r_def by (simp only: rev_append)
  also have "\<dots> = rev (rev d)"
    by (simp only: takeWhile_dropWhile_id)
  finally have d: "d = r @ rev (takeWhile P (rev d))"
    by simp
  have "t = takeWhile P t @ d" unfolding d_def by simp
  then have "t = takeWhile P t @ r @ rev (takeWhile P (rev d))"
    using d by simp
  then have "sublist r t"
    unfolding sublist_def by blast
  then show ?thesis
    unfolding r_def d_def .
qed

lemma strip_no_prefix:
  "\<not> prefix [c] (rev (dropWhile (\<lambda>y. y = c) (rev (dropWhile (\<lambda>y. y = c) t))))"
proof (cases "dropWhile (\<lambda>y. y = c) t")
  case Nil
  show ?thesis unfolding Nil by simp
next
  case (Cons y ys)
  have "y \<noteq> c"
    using hd_dropWhile [of "\<lambda>y. y = c" t] Cons by auto
  then show ?thesis
    unfolding Cons strip_end_Cons by simp
qed

lemma strip_no_suffix:
  "\<not> suffix [c] (rev (dropWhile (\<lambda>y. y = c) (rev d)))"
proof
  assume "suffix [c] (rev (dropWhile (\<lambda>y. y = c) (rev d)))"
  then obtain zs where "rev (dropWhile (\<lambda>y. y = c) (rev d)) = zs @ [c]"
    by (auto simp: suffix_def)
  then have "rev (rev (dropWhile (\<lambda>y. y = c) (rev d))) = rev (zs @ [c])" by simp
  then have eq: "dropWhile (\<lambda>y. y = c) (rev d) = c # rev zs" by simp
  show False
    using hd_dropWhile [of "\<lambda>y. y = c" "rev d"] eq by auto
qed

lemma transformUrlSafe_single:
  "transformUrlSafe rt val (JStr [c]) =
     Inr (rev (dropWhile (\<lambda>y. y = c) (rev (dropWhile (\<lambda>y. y = c)
       (replace_all (\<lambda>before. match_separators [c]) [c] []
         (filter (in_ranges (url_safe_ranges @ [(c, c)]))
           (replace_all match_spaces [c] [] (toLowerCase rt val))))))))"
  by (simp add: transformUrlSafe_def Let_def pattern_atoms_escape replace_all_outside trim_both)

text \<open>
  Claim C8, for a separator of one character. The output of \<open>transformUrlSafe\<close> has
  only characters of \<open>a-z\<close>, \<open>0-9\<close> and the separator, never the separator twice in
  a row, and the separator neither first nor last.
\<close>

theorem transformUrlSafe_one_character:
  "\<exists>result. transformUrlSafe rt val (JStr [c]) = Inr result \<and>
     (\<forall>x \<in> set result. in_ranges url_safe_ranges x \<or> x = c) \<and>
     \<not> sublist [c, c] result \<and> \<not> prefix [c] result \<and> \<not> suffix [c] result"
proof -
  let ?kept = "filter (in_ranges (url_safe_ranges @ [(c, c)]))
      (replace_all match_spaces [c] [] (toLowerCase rt val))"
  let ?t = "replace_all (\<lambda>before. match_separators [c]) [c] [] ?kept"
  let ?r = "rev (dropWhile (\<lambda>y. y = c) (rev (dropWhile (\<lambda>y. y = c) ?t)))"
  have sub: "sublist ?r ?t" by (rule strip_is_sublist)
  have "set ?r \<subseteq> set ?t" using sub by (rule set_mono_sublist)
  also have "\<dots> \<subseteq> set ?kept" by (rule collapse_subset)
  finally have chars: "\<forall>x \<in> set ?r. in_ranges url_safe_ranges x \<or> x = c"
    by (auto simp: in_ranges_append in_ranges_single)
  have double: "\<not> sublist [c, c] ?r"
    using sub collapse_no_double [of c "[]" ?kept] sublist_order.order.trans by blast
  show ?thesis
    unfolding transformUrlSafe_single
    using chars double strip_no_prefix [of c ?t] strip_no_suffix [of c "dropWhile (\<lambda>y. y = c) ?t"]
    by blast
qed

theorem transformUrlSafe_one_character_witness:
  "transformUrlSafe example_runtime ''How to Reset Password?'' (JStr ''-'') = Inr ''how-to-reset-password'' \<and>
   \<not> sublist ''--'' ''how-to-reset-password'' \<and>
   \<not> prefix ''-'' ''how-to-reset-password'' \<and> \<not> suffix ''-'' ''how-to-reset-password''"
proof -
  have run: "transformUrlSafe example_runtime ''How to Reset Password?'' (JStr ''-'') =
      Inr ''how-to-reset-password''"
    by code_simp
  show ?thesis
    using transformUrlSafe_one_character [of example_runtime "''How to Reset Password?''" "CHR ''-''"]
    by (simp add: run)
qed

text \<open>
  The claim as stated, for every separator, fails at the separator \<open>-_\<close>: the pattern
  \<open>-_+\<close> repeats only the last character, so two separators in a row stay.
\<close>

theorem transformUrlSafe_two_characters:
  "transformUrlSafe example_runtime ''x ! y'' (JStr ''-_'') = Inr ''x-_-_y'' \<and>
   sublist (''-_'' @ ''-_'') ''x-_-_y''"
proof -
  have run: "transformUrlSafe example_runtime ''x ! y'' (JStr ''-_'') = Inr ''x-_-_y''"
    by code_simp
  have "''x-_-_y'' = ''x'' @ (''-_'' @ ''-_'') @ ''y''" by simp
  then have "sublist (''-_'' @ ''-_'') ''x-_-_y''"
    unfolding sublist_def by blast
  then show ?thesis using run by simp
qed

text \<open>With the empty separator the pattern of step 4 is \<open>+\<close>: \<open>new RegExp\<close> throws.\<close>

lemma transformUrlSafe_empty_separator:
  "transformUrlSafe rt val (JStr []) = Inl SyntaxError"
  by (simp add: transformUrlSafe_def Let_def)

section \<open>Validation: the batch size check\<close>

lemma add_error_other:
  "msg \<noteq> batchSize_error \<Longrightarrow>
   (batchSize_error \<in> set (errors (add_error msg r))) = (batchSize_error \<in> set (errors r))"
  by (auto simp: add_error_def)

lemma add_error_valid [simp]: "\<not> valid (add_error msg r)"
  by (simp add: add_error_def)

lemma add_warning_errors [simp]: "errors (add_warning msg r) = errors r"
  by (simp add: add_warning_def)

lemma add_warning_valid [simp]: "valid (add_warning msg r) = valid r"
  by (simp add: add_warning_def)

lemma hd_ne_batch: "msg \<noteq> [] \<Longrightarrow> hd msg \<noteq> CHR ''b'' \<Longrightarrow> msg \<noteq> batchSize_error"
  by (auto simp: batchSize_error_def)

lemma add_error_hd:
  "msg \<noteq> [] \<Longrightarrow> hd msg \<noteq> CHR ''b'' \<Longrightarrow>
   (batchSize_error \<in> set (errors (add_error msg r))) = (batchSize_error \<in> set (errors r))"
  by (rule add_error_other) (rule hd_ne_batch)

lemma validateTransform_errors:
  "(batchSize_error \<in> set (errors (validateTransform rt f t r))) = (batchSize_error \<in> set (errors r))"
proof (cases "typeof t = ''object'' \<and> t \<noteq> JNull")
  case True
  then have not_string: "\<And>s. t \<noteq> JStr s" by auto
  show ?thesis
    using True not_string
    by (cases t; cases "js_get rt t ''type''")
      (simp_all add: validateTransform_def Let_def add_error_hd)
next
  case False
  then show ?thesis
    by (cases t) (simp_all add: validateTransform_def Let_def add_error_hd)
qed

lemma validateTransforms_fold:
  "(batchSize_error \<in> set (errors (foldl (\<lambda>r f. validateTransform rt f (g f) r) r fs)))
     = (batchSize_error \<in> set (errors r))"
proof (induction fs arbitrary: r)
  case Nil
  show ?case by simp
next
  case (Cons f fs)
  show ?case
    unfolding foldl_Cons Cons.IH
    by (rule validateTransform_errors)
qed

lemma validateTransforms_Inr:
  assumes "\<not> hasOwnProperty_shadowed v"
  shows "\<exists>t. validateTransforms rt v = Inr t \<and> batchSize_error \<notin> set (errors t)"
proof (cases "typeof v \<noteq> ''object'' \<or> v = JNull")
  case True
  then show ?thesis
    by (simp add: validateTransforms_def) (simp add: batchSize_error_def)
next
  case False
  then show ?thesis
    using assms by (simp add: validateTransforms_def for_in_own_def validateTransforms_fold)
qed

lemma validateTransforms_Inl:
  assumes "hasOwnProperty_shadowed v" and "typeof v = ''object''"
  shows "validateTransforms rt v = Inl TypeError"
proof -
  have "v \<noteq> JNull"
    using assms(1) by (auto simp: hasOwnProperty_shadowed_def)
  then show ?thesis
    using assms by (simp add: validateTransforms_def for_in_own_def)
qed

text \<open>A check that neither reports the batch size error nor turns an invalid result valid.\<close>

definition keeps_batchSize :: "(validation \<Rightarrow> validation) \<Rightarrow> bool" where
  "keeps_batchSize c =
     (\<forall>r. (batchSize_error \<in> set (errors (c r))) = (batchSize_error \<in> set (errors r)) \<and>
          (\<not> valid r \<longrightarrow> \<not> valid (c r)))"

lemma keeps_articleType: "keeps_batchSize (check_articleType rt config)"
  by (simp add: keeps_batchSize_def check_articleType_def Let_def add_error_hd)

lemma keeps_contentFolderIDs: "keeps_batchSize (check_contentFolderIDs rt config)"
  by (simp add: keeps_batchSize_def check_contentFolderIDs_def Let_def add_error_hd
      split: option.splits)

lemma keeps_exportMode: "keeps_batchSize (check_exportMode rt config)"
  by (simp add: keeps_batchSize_def check_exportMode_def Let_def add_error_hd)

lemma keeps_boolean: "name \<noteq> [] \<Longrightarrow> hd name \<noteq> CHR ''b'' \<Longrightarrow> keeps_batchSize (check_boolean rt name config)"
  by (simp add: keeps_batchSize_def check_boolean_def Let_def add_error_hd)

lemma keeps_object: "name \<noteq> [] \<Longrightarrow> hd name \<noteq> CHR ''b'' \<Longrightarrow> keeps_batchSize (check_object rt name config)"
  by (simp add: keeps_batchSize_def check_object_def Let_def add_error_hd)

lemma keeps_string: "name \<noteq> [] \<Longrightarrow> hd name \<noteq> CHR ''b'' \<Longrightarrow> keeps_batchSize (check_string rt name config)"
  by (simp add: keeps_batchSize_def check_string_def Let_def add_error_hd)

lemma keeps_fieldMapping: "keeps_batchSize (check_fieldMapping rt config)"
  by (simp add: keeps_batchSize_def check_fieldMapping_def Let_def add_error_hd)

lemma keepsD:
  "keeps_batchSize c \<Longrightarrow>
   (batchSize_error \<in> set (errors (c r))) = (batchSize_error \<in> set (errors r))"
  "keeps_batchSize c \<Longrightarrow> \<not> valid r \<Longrightarrow> \<not> valid (c r)"
  by (simp_all add: keeps_batchSize_def)

text \<open>The check of \<open>transforms\<close> returns when the method is not hidden, and throws when it is.\<close>

lemma check_transforms_Inr:
  assumes "\<not> hasOwnProperty_shadowed (js_get rt config ''transforms'')"
  shows "\<exists>r'. check_transforms rt config r = Inr r' \<and>
           (batchSize_error \<in> set (errors r')) = (batchSize_error \<in> set (errors r)) \<and>
           (\<not> valid r \<longrightarrow> \<not> valid r')"
proof (cases "truthy (js_get rt config ''transforms'')")
  case False
  then show ?thesis by (simp add: check_transforms_def)
next
  case True
  from validateTransforms_Inr [OF assms, of rt] obtain t where
    t: "validateTransforms rt (js_get rt config ''transforms'') = Inr t" and
    e: "batchSize_error \<notin> set (errors t)"
    by blast
  show ?thesis
    using True e by (simp add: check_transforms_def t Let_def)
qed

lemma check_transforms_Inl:
  assumes "hasOwnProperty_shadowed (js_get rt config ''transforms'')"
    and "typeof (js_get rt config ''transforms'') = ''object''"
  shows "check_transforms rt config r = Inl TypeError"
proof -
  have "truthy (js_get rt config ''transforms'')"
    using assms by (cases "js_get rt config ''transforms''") (simp_all add: hasOwnProperty_shadowed_def)
  then show ?thesis
    by (simp add: check_transforms_def validateTransforms_Inl [OF assms])
qed

lemma validateConfiguration_throws:
  assumes "truthy config" and "typeof config = ''object''"
    and "hasOwnProperty_shadowed (js_get rt config ''transforms'')"
    and "typeof (js_get rt config ''transforms'') = ''object''"
  shows "validateConfiguration rt config siteID = Inl TypeError"
  using assms(1,2) by (simp add: validateConfiguration_def check_transforms_Inl [OF assms(3,4)])

lemma check_batchSize_reports:
  "js_get rt config ''batchSize'' \<noteq> JUndefined \<Longrightarrow>
   batchSize_error \<notin> set (errors r) \<Longrightarrow>
   (batchSize_error \<in> set (errors (check_batchSize rt config r))) =
     (\<not> (\<exists>x. js_get rt config ''batchSize'' = JNum x \<and> 1 \<le> x \<and> x \<le> 500))"
  by (auto simp: check_batchSize_def Let_def add_error_def split: jsval.splits)

lemma check_batchSize_invalid:
  "batchSize_error \<notin> set (errors r) \<Longrightarrow>
   batchSize_error \<in> set (errors (check_batchSize rt config r)) \<Longrightarrow>
   \<not> valid (check_batchSize rt config r)"
  by (auto simp: check_batchSize_def Let_def add_error_def split: jsval.splits if_splits)

lemma no_batchSize_error_before_check:
  "batchSize_error \<notin> set (errors (check_contentFolderIDs rt config
      (check_articleType rt config \<lparr>valid = True, errors = [], warnings = []\<rparr>)))"
  by (simp add: keepsD(1) [OF keeps_contentFolderIDs] keepsD(1) [OF keeps_articleType])

text \<open>
  What \<open>validateConfiguration\<close> returns for an object whose \<open>transforms\<close> does not hide
  \<open>hasOwnProperty\<close>, seen from the result of the batch size check.
\<close>

lemma validateConfiguration_after_check:
  assumes object: "truthy config" "typeof config = ''object''"
    and callable: "\<not> hasOwnProperty_shadowed (js_get rt config ''transforms'')"
  shows "\<exists>result. validateConfiguration rt config siteID = Inr result \<and>
           (batchSize_error \<in> set (errors result)) =
             (batchSize_error \<in> set (errors (check_batchSize rt config
                (check_contentFolderIDs rt config
                (check_articleType rt config \<lparr>valid = True, errors = [], warnings = []\<rparr>))))) \<and>
           (\<not> valid (check_batchSize rt config
                (check_contentFolderIDs rt config
                (check_articleType rt config \<lparr>valid = True, errors = [], warnings = []\<rparr>)))
             \<longrightarrow> \<not> valid result)"
proof -
  define r3 where "r3 = check_batchSize rt config
                (check_contentFolderIDs rt config
                (check_articleType rt config \<lparr>valid = True, errors = [], warnings = []\<rparr>))"
  define r8 where "r8 = check_fieldMapping rt config
               (check_boolean rt ''autoCreateFields'' config
               (check_boolean rt ''enableDebugLogging'' config
               (check_boolean rt ''publishArticles'' config
               (check_exportMode rt config r3))))"
  have k: "keeps_batchSize (check_string rt ''dataCategory'' config)"
      "keeps_batchSize (check_string rt ''recordTypeName'' config)"
      "keeps_batchSize (check_object rt ''fieldMetadata'' config)"
      "keeps_batchSize (check_object rt ''static'' config)"
      "keeps_batchSize (check_boolean rt ''autoCreateFields'' config)"
      "keeps_batchSize (check_boolean rt ''enableDebugLogging'' config)"
      "keeps_batchSize (check_boolean rt ''publishArticles'' config)"
    by (simp_all add: keeps_string keeps_object keeps_boolean)
  have e8: "(batchSize_error \<in> set (errors r8)) = (batchSize_error \<in> set (errors r3))"
    unfolding r8_def
    by (simp only: keepsD(1) [OF k(5)] keepsD(1) [OF k(6)] keepsD(1) [OF k(7)]
        keepsD(1) [OF keeps_fieldMapping] keepsD(1) [OF keeps_exportMode])
  have v8: "\<not> valid r3 \<Longrightarrow> \<not> valid r8"
    unfolding r8_def
    by (intro keepsD(2) [OF k(5)] keepsD(2) [OF k(6)] keepsD(2) [OF k(7)]
        keepsD(2) [OF keeps_fieldMapping] keepsD(2) [OF keeps_exportMode])
  from check_transforms_Inr [OF callable, of r8] obtain r9 where
    r9: "check_transforms rt config r8 = Inr r9" and
    e9: "(batchSize_error \<in> set (errors r9)) = (batchSize_error \<in> set (errors r8))" and
    v9: "\<not> valid r8 \<longrightarrow> \<not> valid r9"
    by blast
  define result where "result = check_string rt ''dataCategory'' config
                (check_string rt ''recordTypeName'' config
                (check_object rt ''fieldMetadata'' config
                (check_object rt ''static'' config r9)))"
  have run: "validateConfiguration rt config siteID = Inr result"
    using object r9 by (simp add: validateConfiguration_def r8_def r3_def result_def)
  have e: "(batchSize_error \<in> set (errors result)) = (batchSize_error \<in> set (errors r9))"
    unfolding result_def
    by (simp only: keepsD(1) [OF k(1)] keepsD(1) [OF k(2)] keepsD(1) [OF k(3)] keepsD(1) [OF k(4)])
  have v: "\<not> valid r9 \<Longrightarrow> \<not> valid result"
    unfolding result_def
    by (intro keepsD(2) [OF k(1)] keepsD(2) [OF k(2)] keepsD(2) [OF k(3)] keepsD(2) [OF k(4)])
  show ?thesis
    unfolding r3_def [symmetric]
    using run e e9 e8 v v9 v8 by blast
qed

text \<open>
  Claim C9, as the code has it. For a configuration object in which \<open>batchSize\<close> is
  present and whose \<open>transforms\<close> has no own property named \<open>hasOwnProperty\<close>,
  \<open>validateConfiguration\<close> returns, it reports the batch size error exactly when the
  value is not a number between 1 and 500 (both included), and a result that holds the
  error is not valid. The test is
  \<open>typeof batchSize !== 'number' || batchSize < 1 || batchSize > 500\<close>: it does not ask
  for an integer.
\<close>

theorem validateConfiguration_batchSize:
  assumes object: "truthy config" "typeof config = ''object''"
    and present: "js_get rt config ''batchSize'' \<noteq> JUndefined"
    and callable: "\<not> hasOwnProperty_shadowed (js_get rt config ''transforms'')"
  shows "\<exists>result. validateConfiguration rt config siteID = Inr result \<and>
           (batchSize_error \<in> set (errors result)) =
             (\<not> (\<exists>x. js_get rt config ''batchSize'' = JNum x \<and> 1 \<le> x \<and> x \<le> 500)) \<and>
           (batchSize_error \<in> set (errors result) \<longrightarrow> \<not> valid result)"
proof -
  let ?r3 = "check_batchSize rt config
                (check_contentFolderIDs rt config
                (check_articleType rt config \<lparr>valid = True, errors = [], warnings = []\<rparr>))"
  from validateConfiguration_after_check [OF object callable, of siteID] obtain result where
    run: "validateConfiguration rt config siteID = Inr result" and
    e: "(batchSize_error \<in> set (errors result)) = (batchSize_error \<in> set (errors ?r3))" and
    v: "\<not> valid ?r3 \<longrightarrow> \<not> valid result"
    by blast
  have reports: "(batchSize_error \<in> set (errors ?r3)) =
      (\<not> (\<exists>x. js_get rt config ''batchSize'' = JNum x \<and> 1 \<le> x \<and> x \<le> 500))"
    by (rule check_batchSize_reports [OF present no_batchSize_error_before_check])
  have invalid: "batchSize_error \<in> set (errors ?r3) \<Longrightarrow> \<not> valid ?r3"
    by (rule check_batchSize_invalid [OF no_batchSize_error_before_check])
  show ?thesis
    using run e v reports invalid by blast
qed

lemmas check_defs =
  check_string_def check_object_def check_transforms_def check_fieldMapping_def
  check_boolean_def check_exportMode_def check_batchSize_def check_contentFolderIDs_def
  check_articleType_def

theorem validateConfiguration_batchSize_witness:
  "truthy oversized_config \<and> typeof oversized_config = ''object'' \<and>
   js_get example_runtime oversized_config ''batchSize'' = JNum 501 \<and>
   \<not> hasOwnProperty_shadowed (js_get example_runtime oversized_config ''transforms'') \<and>
   validateConfiguration example_runtime oversized_config ''RefArch'' =
     Inr \<lparr>valid = False, errors = [batchSize_error], warnings = []\<rparr>"
proof -
  have object: "truthy oversized_config" "typeof oversized_config = ''object''"
    by (simp_all add: oversized_config_def)
  have size: "js_get example_runtime oversized_config ''batchSize'' = JNum 501"
    by (simp add: oversized_config_def)
  have callable: "\<not> hasOwnProperty_shadowed (js_get example_runtime oversized_config ''transforms'')"
    by (simp add: oversized_config_def hasOwnProperty_shadowed_def example_runtime_def
        example_prototype_member_def)
  have run: "validateConfiguration example_runtime oversized_config ''RefArch'' =
      Inr \<lparr>valid = False, errors = [batchSize_error], warnings = []\<rparr>"
    by code_simp
  have present: "js_get example_runtime oversized_config ''batchSize'' \<noteq> JUndefined"
    by (simp add: size)
  show ?thesis
    using object size callable validateConfiguration_batchSize [OF object present callable, of "''RefArch''"]
    by (simp add: run)
qed

text \<open>
  The claim as stated fails at the configuration \<open>{"batchSize": 2.5}\<close>: the value is not
  an integer, and the configuration is valid with no error.
\<close>

theorem validateConfiguration_accepts_fraction:
  "validateConfiguration example_runtime (JObj [(''batchSize'', JNum (5 / 2))]) ''RefArch'' =
     Inr \<lparr>valid = True, errors = [], warnings = []\<rparr>"
  by code_simp

text \<open>
  Validation does not return for \<open>{"batchSize": 501, "transforms": {"hasOwnProperty":
  "lowercase"}}\<close>: the loop of \<open>validateTransforms\<close> calls the string.
\<close>

lemma validateConfiguration_shadowed_transforms:
  "validateConfiguration example_runtime
     (JObj [(''batchSize'', JNum 501),
            (''transforms'', JObj [(''hasOwnProperty'', JStr ''lowercase'')])]) ''RefArch'' =
     Inl TypeError"
  by code_simp

section \<open>Transforms touch only the fields they name\<close>

lemma ToPrimitive_throws_JStr [simp]: "\<not> ToPrimitive_throws rt (JStr s)"
  by (simp add: ToPrimitive_throws_def)

lemma applyTransform_string:
  assumes "truthy v" and "\<not> ToPrimitive_throws rt v"
  shows "\<exists>s. applyTransform rt v t = Inr (JStr s)"
  using assms
  by (auto simp: applyTransform_def to_string_def transformed_def split: sum.splits jsval.splits)

lemma applyTransform_Inr:
  assumes "\<not> ToPrimitive_throws rt v"
  shows "\<exists>v'. applyTransform rt v t = Inr v' \<and> \<not> ToPrimitive_throws rt v'"
proof (cases "truthy v")
  case False
  then show ?thesis using assms by (simp add: applyTransform_def)
next
  case True
  from applyTransform_string [OF True assms, of t] obtain s where
    "applyTransform rt v t = Inr (JStr s)" by blast
  then show ?thesis by simp
qed

lemma transform_chain_Inr:
  "\<not> ToPrimitive_throws rt v \<Longrightarrow>
   \<exists>v'. transform_chain rt v ts = Inr v' \<and> \<not> ToPrimitive_throws rt v'"
proof (induction ts arbitrary: v)
  case Nil
  then show ?case by simp
next
  case (Cons t ts)
  from applyTransform_Inr [OF Cons.prems, of t] obtain v1 where
    v1: "applyTransform rt v t = Inr v1" "\<not> ToPrimitive_throws rt v1"
    by blast
  from Cons.IH [OF v1(2)] show ?case
    by (simp add: v1(1))
qed

lemma transform_value_Inr:
  assumes "\<not> ToPrimitive_throws rt v"
  shows "\<exists>v'. (if isArray t then applyMultipleTransforms rt v t else applyTransform rt v t) = Inr v'
           \<and> \<not> ToPrimitive_throws rt v'"
proof (cases t)
  case (JArr ts)
  then show ?thesis
    using transform_chain_Inr [OF assms, of ts] by (simp add: applyMultipleTransforms_def)
qed (simp_all add: applyTransform_Inr [OF assms])

lemma keys_obj_set_present:
  "map_of m k \<noteq> None \<Longrightarrow> fst ` set (obj_set m k v) = fst ` set m"
  by (auto simp: obj_set_def dom_update map_of_eq_None_iff)

lemma map_of_obj_set_cases:
  "map_of (obj_set m k v) k' = map_of m k' \<or> (k' = k \<and> map_of (obj_set m k v) k' = Some v)"
  by (simp add: obj_set_def update_conv')

lemma transform_loop_Inr:
  assumes "map_of result ''hasOwnProperty'' = None"
    and "\<forall>k \<in> set names. \<forall>v. map_of result k = Some v \<longrightarrow> \<not> ToPrimitive_throws rt v"
  shows "\<exists>result'. transform_loop rt transforms names result = Inr result' \<and>
           fst ` set result' = fst ` set result \<and>
           (\<forall>k. k \<notin> set names \<longrightarrow> map_of result' k = map_of result k)"
  using assms
proof (induction names arbitrary: result)
  case Nil
  show ?case by simp
next
  case (Cons name names)
  have has: "hasOwnProperty result name = Inr (map_of result name \<noteq> None)"
    using Cons.prems(1) by (simp add: hasOwnProperty_def hasOwnProperty_shadowed_def)
  show ?case
  proof (cases "map_of result name")
    case None
    have rest: "\<forall>k \<in> set names. \<forall>v. map_of result k = Some v \<longrightarrow> \<not> ToPrimitive_throws rt v"
      using Cons.prems(2) by simp
    from Cons.IH [OF Cons.prems(1) rest] obtain result' where
      run: "transform_loop rt transforms names result = Inr result'" and
      keys: "fst ` set result' = fst ` set result" and
      frame: "\<forall>k. k \<notin> set names \<longrightarrow> map_of result' k = map_of result k"
      by blast
    have "transform_loop rt transforms (name # names) result = Inr result'"
      by (simp add: has None run)
    then show ?thesis
      using keys frame by simp
  next
    case (Some v)
    have original: "js_get rt (JObj result) name = v"
      by (simp add: Some)
    have "\<not> ToPrimitive_throws rt v"
      using Cons.prems(2) Some by simp
    from transform_value_Inr [OF this, of "js_get rt transforms name"] obtain v' where
      v': "(if isArray (js_get rt transforms name)
            then applyMultipleTransforms rt v (js_get rt transforms name)
            else applyTransform rt v (js_get rt transforms name)) = Inr v'" and
      safe: "\<not> ToPrimitive_throws rt v'"
      by blast
    define result1 where "result1 = obj_set result name v'"
    have ne: "name \<noteq> ''hasOwnProperty''"
      using Cons.prems(1) Some by auto
    have callable: "map_of result1 ''hasOwnProperty'' = None"
      using ne Cons.prems(1) by (simp add: result1_def map_of_obj_set_other)
    have rest: "\<forall>k \<in> set names. \<forall>w. map_of result1 k = Some w \<longrightarrow> \<not> ToPrimitive_throws rt w"
    proof (intro ballI allI impI)
      fix k w assume k: "k \<in> set names" and w: "map_of result1 k = Some w"
      from map_of_obj_set_cases [of result name v' k]
      show "\<not> ToPrimitive_throws rt w"
      proof
        assume "map_of (obj_set result name v') k = map_of result k"
        then show ?thesis using Cons.prems(2) k w by (simp add: result1_def)
      next
        assume "k = name \<and> map_of (obj_set result name v') k = Some v'"
        then have "map_of result1 k = Some v'" unfolding result1_def by (rule conjunct2)
        with w have "w = v'" by simp
        then show ?thesis using safe by simp
      qed
    qed
    from Cons.IH [OF callable rest] obtain result' where
      run: "transform_loop rt transforms names result1 = Inr result'" and
      keys: "fst ` set result' = fst ` set result1" and
      frame: "\<forall>k. k \<notin> set names \<longrightarrow> map_of result' k = map_of result1 k"
      by blast
    have step: "transform_loop rt transforms (name # names) result = Inr result'"
      using v' run by (simp add: has Some original result1_def Let_def)
    have keys1: "fst ` set result1 = fst ` set result"
      unfolding result1_def by (rule keys_obj_set_present) (simp add: Some)
    have "\<forall>k. k \<notin> set (name # names) \<longrightarrow> map_of result' k = map_of result k"
      using frame by (simp add: result1_def map_of_obj_set_other)
    then show ?thesis
      using step keys keys1 by simp
  qed
qed

text \<open>
  Claim C10, as the code has it. The loops of \<open>applyTransformsToFields\<close> call
  \<open>hasOwnProperty\<close> on \<open>mappedFields\<close>, on \<open>transforms\<close> and on the copy, the copy is
  made by assignment, and a value under transformation is made a string before the
  \<open>try\<close>. For fields without an own key \<open>hasOwnProperty\<close> or \<open>__proto__\<close>, transforms
  without an own key \<open>hasOwnProperty\<close>, and values that have a string form where a
  transform names them, \<open>applyTransformsToFields\<close> returns an object with exactly the
  field names of \<open>mappedFields\<close>; a field that no entry of \<open>transforms\<close> names keeps
  its value. So an entry of \<open>transforms\<close> that names a field absent from
  \<open>mappedFields\<close> adds nothing.
\<close>

theorem applyTransformsToFields_frame:
  assumes fields: "ordinary_keys mappedFields"
    and callable: "\<not> hasOwnProperty_shadowed transforms"
    and strings: "\<forall>name \<in> own_keys mappedFields \<inter> own_keys transforms.
                    \<not> ToPrimitive_throws rt (js_get rt mappedFields name)"
  shows "\<exists>result. applyTransformsToFields rt mappedFields transforms = Inr result \<and>
           own_keys result = own_keys mappedFields \<and>
           (\<forall>name \<in> own_keys mappedFields. name \<notin> own_keys transforms \<longrightarrow>
              js_get rt result name = js_get rt mappedFields name)"
proof (cases "truthy transforms \<and> typeof transforms = ''object''")
  case False
  then show ?thesis by (auto simp: applyTransformsToFields_def)
next
  case True
  let ?names = "map fst (own_entries transforms)"
  have names: "set ?names = own_keys transforms"
    by (simp add: own_keys_def)
  from copy_properties_Inr [OF fields, of rt "[]"] obtain result0 where
    copy: "copy_properties rt mappedFields [] = Inr result0" and
    l0: "\<forall>k. map_of result0 k =
           (if k \<in> own_keys mappedFields then Some (js_get rt mappedFields k) else None)"
    by auto
  have no_method: "map_of result0 ''hasOwnProperty'' = None"
    using l0 fields by (simp add: ordinary_keys_def own_keys_map_of)
  have safe: "\<forall>k \<in> set ?names. \<forall>v. map_of result0 k = Some v \<longrightarrow> \<not> ToPrimitive_throws rt v"
    unfolding names using l0 strings by (auto split: if_splits)
  from transform_loop_Inr [OF no_method safe, of transforms] obtain result' where
    run: "transform_loop rt transforms ?names result0 = Inr result'" and
    keys: "fst ` set result' = fst ` set result0" and
    frame: "\<forall>k. k \<notin> set ?names \<longrightarrow> map_of result' k = map_of result0 k"
    by blast
  have loop: "for_in_own transforms = Inr ?names"
    using callable by (simp add: for_in_own_def)
  have result: "applyTransformsToFields rt mappedFields transforms = Inr (JObj result')"
    using True by (simp add: applyTransformsToFields_def copy loop run)
  have "own_keys (JObj result') = own_keys mappedFields"
  proof (rule set_eqI)
    fix k
    have "(k \<in> own_keys (JObj result')) = (k \<in> fst ` set result0)"
      unfolding keys [symmetric] by (simp add: own_keys_def)
    also have "\<dots> = (map_of result0 k \<noteq> None)"
      by (simp add: map_of_eq_None_iff)
    also have "\<dots> = (k \<in> own_keys mappedFields)"
      using spec [OF l0, of k] by simp
    finally show "(k \<in> own_keys (JObj result')) = (k \<in> own_keys mappedFields)" .
  qed
  moreover have "\<forall>name \<in> own_keys mappedFields. name \<notin> own_keys transforms \<longrightarrow>
              js_get rt (JObj result') name = js_get rt mappedFields name"
    using frame l0 unfolding names by simp
  ultimately show ?thesis
    unfolding result by blast
qed

theorem applyTransformsToFields_frame_witness:
  "ordinary_keys example_fields \<and> \<not> hasOwnProperty_shadowed example_transforms \<and>
   applyTransformsToFields example_runtime example_fields example_transforms =
     Inr (JObj [(''Title'', JStr ''How to Reset Password''),
                (''UrlName'', JStr ''how-to-reset-password''),
                (''Slug__c'', JStr ''Product_FAQ'')])"
proof -
  have fields: "ordinary_keys example_fields"
    by (simp add: ordinary_keys_def example_fields_def)
  have callable: "\<not> hasOwnProperty_shadowed example_transforms"
    by (simp add: hasOwnProperty_shadowed_def example_transforms_def)
  have strings: "\<forall>name \<in> own_keys example_fields \<inter> own_keys example_transforms.
      \<not> ToPrimitive_throws example_runtime (js_get example_runtime example_fields name)"
    by (simp add: own_keys_def example_fields_def example_transforms_def ToPrimitive_throws_def)
  have run: "applyTransformsToFields example_runtime example_fields example_transforms =
     Inr (JObj [(''Title'', JStr ''How to Reset Password''),
                (''UrlName'', JStr ''how-to-reset-password''),
                (''Slug__c'', JStr ''Product_FAQ'')])"
    by code_simp
  show ?thesis
    using fields callable applyTransformsToFields_frame [OF fields callable strings]
    by (simp add: run)
qed

text \<open>
  The claim as stated fails at transforms with a key named \<open>hasOwnProperty\<close>: for the
  fields \<open>{"Title": "a"}\<close> and the transforms \<open>{"hasOwnProperty": "lowercase"}\<close>,
  \<open>transforms.hasOwnProperty(transformFieldName)\<close> calls the string, and
  \<open>applyTransformsToFields\<close> throws instead of returning an object.
\<close>

theorem applyTransformsToFields_shadowed_transforms:
  "applyTransformsToFields example_runtime one_field shadowing_transforms = Inl TypeError"
  by code_simp

text \<open>
  And a field named \<open>__proto__\<close> is lost in the copy: the result for
  \<open>{"Title": "a", "__proto__": "x"}\<close> has the field \<open>Title\<close> only.
\<close>

lemma applyTransformsToFields_proto_field:
  "applyTransformsToFields example_runtime proto_fields (JObj [(''Title'', JStr ''uppercase'')]) =
     Inr (JObj [(''Title'', JStr ''A'')])"
  by code_simp

end
